theory Spec2Isabelle
  imports Main
begin

section \<open>TaskWhisper backend: the reminder lifecycle\<close>

text \<open>
  A shallow embedding of the HTTP handlers of the TaskWhisper backend: the health and
  transcription routes, the reschedule route and the cron route
  \<^verbatim>\<open>POST /api/reminders/send-due\<close>. Timestamps are milliseconds since the epoch
  (\<open>int\<close>); a JavaScript value that may be \<^verbatim>\<open>null\<close> or \<^verbatim>\<open>undefined\<close> is an
  \<open>option\<close>; the arithmetic on the follow-up counter is that of doubles. The external services (the Supabase table, Resend, Twilio, Whisper) are not
  part of the program: whether a call to one of them fails is read from an oracle, indexed
  by the number of external calls made so far.
\<close>

subsection \<open>JavaScript helpers\<close>

text \<open>Truthiness of a value that is a string, \<^verbatim>\<open>null\<close> or \<^verbatim>\<open>undefined\<close>.\<close>

definition truthy :: "string option \<Rightarrow> bool" where
  "truthy v = (case v of None \<Rightarrow> False | Some s \<Rightarrow> s \<noteq> [])"

text \<open>\<^verbatim>\<open>v || d\<close> on such a value.\<close>

definition or_else :: "string option \<Rightarrow> string \<Rightarrow> string" where
  "or_else v d = (case v of None \<Rightarrow> d | Some s \<Rightarrow> if s = [] then d else s)"

text \<open>\<^verbatim>\<open>s.startsWith(p)\<close>.\<close>

definition startsWith :: "string \<Rightarrow> string \<Rightarrow> bool" where
  "startsWith s p = (take (length p) s = p)"

text \<open>\<^verbatim>\<open>xs.join(sep)\<close>.\<close>

fun join :: "string \<Rightarrow> string list \<Rightarrow> string" where
  "join sep [] = []"
| "join sep [x] = x"
| "join sep (x # y # ys) = x @ sep @ join sep (y # ys)"

text \<open>The character class \<^verbatim>\<open>\d\<close>; \<^verbatim>\<open>\D\<close> is its complement.\<close>

definition is_digit :: "char \<Rightarrow> bool" where
  "is_digit c = (c \<in> set ''0123456789'')"

subsection \<open>JavaScript numbers\<close>

text \<open>
  A JavaScript number is an IEEE 754 double. The handlers compute with one integer column,
  the follow-up counter: its integer is read from JSON as the nearest double, and a sum of
  two doubles is the exact sum rounded to the nearest double, ties going to the even
  mantissa. \<open>bit_length n\<close> is the number of binary digits of \<open>n\<close>; a double has 53 of
  them, so an integer of magnitude \<open>a\<close> with \<open>k\<close> digits too many (\<open>k = 0\<close> when it has
  at most 53) is rounded to a multiple of \<open>2 ^ k\<close>. \<open>round_double x\<close> is the double nearest to the integer \<open>x\<close>, or nothing
  when that is an infinity (the magnitude rounds beyond the largest double).
\<close>

fun bit_length :: "nat \<Rightarrow> nat" where
  "bit_length n = (if n = 0 then 0 else Suc (bit_length (n div 2)))"

declare bit_length.simps [simp del]

definition max_double :: int where
  "max_double = (2 ^ 53 - 1) * 2 ^ 971"

definition round_double :: "int \<Rightarrow> int option" where
  "round_double x =
     (let a = \<bar>x\<bar>;
          k = bit_length (nat a) - 53;
          q = a div 2 ^ k;
          r = a mod 2 ^ k;
          m = (if 2 ^ k < 2 * r \<or> (2 * r = 2 ^ k \<and> odd q) then q + 1 else q)
      in if max_double < m * 2 ^ k then None else Some (sgn x * (m * 2 ^ k)))"

subsection \<open>Phone normalisation\<close>

text \<open>
  \<^verbatim>\<open>const formatPhone = (phone) => {
    if (!phone) return '';
    const digits = phone.replace(/\D/g, '');
    const withCountryCode = digits.startsWith('1') ? digits : `1${digits}`;
    return `+${withCountryCode}`;
  };\<close>
\<close>

definition formatPhone :: "string option \<Rightarrow> string" where
  "formatPhone phone =
     (case phone of
        None \<Rightarrow> []
      | Some p \<Rightarrow>
          if p = [] then []
          else
            let digits = filter is_digit p;
                withCountryCode = (if startsWith digits ''1'' then digits else ''1'' @ digits)
            in ''+'' @ withCountryCode)"

text \<open>
  The normalisation as the specification words it: strip all non-digit characters, prepend
  the country-code digit 1 unless the digits already begin with it, prefix with a plus.
\<close>

definition normalize_spec :: "string \<Rightarrow> string" where
  "normalize_spec p =
     (let d = filter is_digit p
      in ''+'' @ (if startsWith d ''1'' then d else ''1'' @ d))"

subsection \<open>Data model\<close>

text \<open>A task as the analysis produces it; it is stored inside a reminder row.\<close>

record task =
  description :: string
  suggestedDate :: string
  priority :: string
  category :: string

type_synonym reminder_id = string

text \<open>
  A row of the \<^verbatim>\<open>reminders\<close> table, with the column names of the source. The columns the
  handlers guard with \<^verbatim>\<open>||\<close> or a truthiness test are nullable.
\<close>

record reminder =
  rid :: reminder_id
  email :: "string option"
  phone_number :: "string option"
  transcript :: string
  tasks :: "task list option"
  email_draft :: "string option"
  scheduled_for :: int
  notification_methods :: "string list option"
  sent :: bool
  completed :: bool
  last_followup_sent :: "int option"
  followup_count :: "int option"

text \<open>
  The body of an email. The fixed markup of the template literals is left out; the values
  interpolated into it are kept: the lead-in paragraph and, per task, description,
  suggested date and priority for the reminder; the task descriptions and the two action
  links for the follow-up.
\<close>

datatype html =
  ReminderHtml string "(string \<times> string \<times> string) list"
| FollowUpHtml "string list" string string

text \<open>
  A request to a delivery service: the argument of \<^verbatim>\<open>resend.emails.send\<close> (from, to,
  subject, html) or of \<^verbatim>\<open>twilioClient.messages.create\<close> (body, from, to).
\<close>

datatype delivery =
  EmailMsg string "string option" string html
| SmsMsg string "string option" string

text \<open>An element of \<^verbatim>\<open>results\<close>: \<^verbatim>\<open>{ id, status, error }\<close>, the error absent on success.\<close>

record outcome =
  entry_id :: reminder_id
  status :: string
  error :: "string option"

subsection \<open>Configuration and external services\<close>

text \<open>The variables of \<^verbatim>\<open>process.env\<close> that the server reads.\<close>

record process_env =
  OPENAI_API_KEY :: "string option"
  ANTHROPIC_API_KEY :: "string option"
  RESEND_API_KEY :: "string option"
  TWILIO_ACCOUNT_SID :: "string option"
  TWILIO_AUTH_TOKEN :: "string option"
  TWILIO_PHONE_NUMBER :: "string option"
  SUPABASE_URL :: "string option"
  SUPABASE_KEY :: "string option"
  FRONTEND_URL :: "string option"

text \<open>
  The three clients are created at start-up, or are \<^verbatim>\<open>null\<close>:
  \<^verbatim>\<open>const supabase = process.env.SUPABASE_URL && process.env.SUPABASE_KEY ? createClient(..) : null;
  const twilioClient = process.env.TWILIO_ACCOUNT_SID && process.env.TWILIO_AUTH_TOKEN ? twilio(..) : null;
  const resend = process.env.RESEND_API_KEY ? new Resend(..) : null;\<close>
  Each definition says whether the client is there.
\<close>

definition supabase :: "process_env \<Rightarrow> bool" where
  "supabase pe = (truthy (SUPABASE_URL pe) \<and> truthy (SUPABASE_KEY pe))"

definition twilioClient :: "process_env \<Rightarrow> bool" where
  "twilioClient pe = (truthy (TWILIO_ACCOUNT_SID pe) \<and> truthy (TWILIO_AUTH_TOKEN pe))"

definition resend :: "process_env \<Rightarrow> bool" where
  "resend pe = truthy (RESEND_API_KEY pe)"

text \<open>The queries the modelled handlers send to the table.\<close>

datatype store_query =
  SelectDue int
| UpdateSent reminder_id
| SelectFollowUp int
| UpdateFollowUp reminder_id int "int option"
| UpdateReschedule reminder_id int

text \<open>
  The behaviour of the services during one request. \<open>store_fault n q\<close> is the error the
  table answers to query \<open>q\<close> when \<open>n\<close> external calls have been made before it (none:
  the query is carried out); \<open>send_fault n m\<close> is the message of the error that the
  delivery of \<open>m\<close> throws; \<open>whisper p\<close> is the transcription of the file at path \<open>p\<close>, or
  the message of the error the API call throws.
\<close>

record services =
  store_fault :: "nat \<Rightarrow> store_query \<Rightarrow> string option"
  send_fault :: "nat \<Rightarrow> delivery \<Rightarrow> string option"
  whisper :: "string \<Rightarrow> string + string"

text \<open>
  The state outside the process: the rows of the table, the messages delivered so far,
  and the number of external calls made so far.
\<close>

record world =
  rows :: "reminder list"
  outbox :: "delivery list"
  tick :: nat

subsection \<open>The table\<close>

text \<open>\<^verbatim>\<open>.update(..).eq('id', i)\<close>: the change is applied to every row whose id is \<open>i\<close>.\<close>

definition update_where ::
  "reminder_id \<Rightarrow> (reminder \<Rightarrow> reminder) \<Rightarrow> reminder list \<Rightarrow> reminder list" where
  "update_where i g rs = map (\<lambda>r. if rid r = i then g r else r) rs"

text \<open>The row with a given id, if any.\<close>

definition get_row :: "reminder list \<Rightarrow> reminder_id \<Rightarrow> reminder option" where
  "get_row rs i = find (\<lambda>r. rid r = i) rs"

text \<open>
  \<^verbatim>\<open>.eq('sent', false).lte('scheduled_for', now.toISOString())\<close>
\<close>

definition is_due :: "int \<Rightarrow> reminder \<Rightarrow> bool" where
  "is_due now r = (\<not> sent r \<and> scheduled_for r \<le> now)"

text \<open>
  \<^verbatim>\<open>.eq('sent', true).eq('completed', false)
  .or(`last_followup_sent.is.null,last_followup_sent.lt.${followUpCutoff}`)
  .lte('scheduled_for', followUpCutoff)\<close>
\<close>

definition needs_followup :: "int \<Rightarrow> reminder \<Rightarrow> bool" where
  "needs_followup followUpCutoff r =
     (sent r \<and> \<not> completed r
      \<and> (case last_followup_sent r of None \<Rightarrow> True | Some t \<Rightarrow> t < followUpCutoff)
      \<and> scheduled_for r \<le> followUpCutoff)"

text \<open>What a query that is carried out does to the rows, and the rows it returns.\<close>

fun apply_query :: "store_query \<Rightarrow> reminder list \<Rightarrow> reminder list" where
  "apply_query (SelectDue now) rs = rs"
| "apply_query (UpdateSent i) rs = update_where i (\<lambda>r. r\<lparr>sent := True\<rparr>) rs"
| "apply_query (SelectFollowUp cutoff) rs = rs"
| "apply_query (UpdateFollowUp i now n) rs =
     update_where i (\<lambda>r. r\<lparr>last_followup_sent := Some now, followup_count := n\<rparr>) rs"
| "apply_query (UpdateReschedule i scheduledFor) rs =
     update_where i
       (\<lambda>r. r\<lparr>scheduled_for := scheduledFor, sent := False,
              last_followup_sent := None, followup_count := Some 0\<rparr>) rs"

fun query_data :: "store_query \<Rightarrow> reminder list \<Rightarrow> reminder list" where
  "query_data (SelectDue now) rs = filter (is_due now) rs"
| "query_data (UpdateSent i) rs = []"
| "query_data (SelectFollowUp cutoff) rs = filter (needs_followup cutoff) rs"
| "query_data (UpdateFollowUp i now n) rs = []"
| "query_data (UpdateReschedule i scheduledFor) rs = filter (\<lambda>r. rid r = i) rs"

text \<open>
  \<^verbatim>\<open>const { data, error } = await supabase.from('reminders')...\<close>: the awaited query
  does not throw; it answers an error (\<open>Inl\<close>) and leaves the table as it is, or it
  answers the data (\<open>Inr\<close>), read after the change is applied.
\<close>

definition store_call :: "services \<Rightarrow> store_query \<Rightarrow> world \<Rightarrow> (string + reminder list) \<times> world" where
  "store_call sv q w =
     (case store_fault sv (tick w) q of
        Some e \<Rightarrow> (Inl e, w\<lparr>tick := tick w + 1\<rparr>)
      | None \<Rightarrow>
          (Inr (query_data q (apply_query q (rows w))),
           w\<lparr>rows := apply_query q (rows w), tick := tick w + 1\<rparr>))"

text \<open>
  \<^verbatim>\<open>await resend.emails.send(m)\<close> and \<^verbatim>\<open>await twilioClient.messages.create(m)\<close>: the
  message is delivered, or the call throws and nothing is delivered.
\<close>

definition send_call :: "services \<Rightarrow> delivery \<Rightarrow> world \<Rightarrow> string option \<times> world" where
  "send_call sv m w =
     (case send_fault sv (tick w) m of
        Some e \<Rightarrow> (Some e, w\<lparr>tick := tick w + 1\<rparr>)
      | None \<Rightarrow> (None, w\<lparr>outbox := outbox w @ [m], tick := tick w + 1\<rparr>))"

subsection \<open>Rescheduling\<close>

datatype reminder_response =
  ReminderOk reminder
| ReminderError string

text \<open>
  \<^verbatim>\<open>POST /api/reminders/:id/reschedule\<close>:
  \<^verbatim>\<open>if (!supabase) return res.status(500).json({ success: false, error: 'Database not configured' });
  const { data, error } = await supabase.from('reminders')
    .update({ scheduled_for: scheduledFor, sent: false, last_followup_sent: null, followup_count: 0 })
    .eq('id', id).select().single();
  if (error) throw error;
  res.json({ success: true, reminder: data });\<close>
  With \<^verbatim>\<open>.single()\<close> the query answers an error unless exactly one row comes back; its
  message \<open>not_single\<close> is the library's and is a parameter here. The thrown error is
  caught by the handler and answered with status 500.
\<close>

definition reschedule ::
  "process_env \<Rightarrow> services \<Rightarrow> string \<Rightarrow> reminder_id \<Rightarrow> int \<Rightarrow> world \<Rightarrow> reminder_response \<times> world" where
  "reschedule pe sv not_single i scheduledFor w =
     (if \<not> supabase pe then (ReminderError ''Database not configured'', w)
      else
        case store_call sv (UpdateReschedule i scheduledFor) w of
          (Inl e, w') \<Rightarrow> (ReminderError e, w')
        | (Inr data, w') \<Rightarrow>
            (case data of
               [r] \<Rightarrow> (ReminderOk r, w')
             | _ \<Rightarrow> (ReminderError not_single, w')))"

subsection \<open>Sending due reminders\<close>

text \<open>
  The email of the due-scan: \<^verbatim>\<open>reminder.email_draft || 'Here are your tasks:'\<close> and
  \<^verbatim>\<open>(reminder.tasks || []).map(task => ..)\<close> are interpolated into the template.
\<close>

definition task_list :: "reminder \<Rightarrow> task list" where
  "task_list r = (case tasks r of None \<Rightarrow> [] | Some ts \<Rightarrow> ts)"

definition reminder_email :: "reminder \<Rightarrow> delivery" where
  "reminder_email r =
     EmailMsg ''TaskWhisper <noreply@jaypwadhwani.com>'' (email r)
       ''TaskWhisper Reminder - Your Scheduled Tasks''
       (ReminderHtml (or_else (email_draft r) ''Here are your tasks:'')
          (map (\<lambda>t. (description t, suggestedDate t, priority t)) (task_list r)))"

text \<open>
  \<^verbatim>\<open>const tasksText = (reminder.tasks || []).map(t => `\<bullet> ${t.description}`).join('\n');
  const smsBody = `<mic> TaskWhisper Reminder\n\n${reminder.email_draft || 'Your tasks:'}\n\n${tasksText}\n\nSent from TaskWhisper`;\<close>
  The microphone and the bullet are written as their UTF-8 bytes.
\<close>

definition nl :: string where
  "nl = [CHR 0x0A]"

definition microphone :: string where
  "microphone = [CHR 0xF0, CHR 0x9F, CHR 0x8E, CHR 0xA4]"

definition bullet :: string where
  "bullet = [CHR 0xE2, CHR 0x80, CHR 0xA2]"

definition smsBody :: "reminder \<Rightarrow> string" where
  "smsBody r =
     (let tasksText = join nl (map (\<lambda>t. bullet @ '' '' @ description t) (task_list r))
      in microphone @ '' TaskWhisper Reminder'' @ nl @ nl
         @ or_else (email_draft r) ''Your tasks:'' @ nl @ nl
         @ tasksText @ nl @ nl @ ''Sent from TaskWhisper'')"

definition reminder_sms :: "process_env \<Rightarrow> reminder \<Rightarrow> delivery" where
  "reminder_sms pe r =
     SmsMsg (smsBody r) (TWILIO_PHONE_NUMBER pe) (formatPhone (phone_number r))"

text \<open>\<^verbatim>\<open>const methods = reminder.notification_methods || ['email'];\<close> (an empty array is truthy).\<close>

definition methods_of :: "reminder \<Rightarrow> string list" where
  "methods_of r = (case notification_methods r of None \<Rightarrow> [''email''] | Some ms \<Rightarrow> ms)"

text \<open>
  The body of the \<^verbatim>\<open>try\<close> block of the due loop, for one reminder of the query's answer:
  \<^verbatim>\<open>if (methods.includes('email') && reminder.email) { await resend.emails.send({..}); }
  if (methods.includes('sms') && reminder.phone_number && twilioClient) {
    await twilioClient.messages.create({ body: smsBody, from: .., to: formatPhone(reminder.phone_number) });
  }
  await supabase.from('reminders').update({ sent: true }).eq('id', reminder.id);\<close>
  The result is the message of the error thrown, if one was, and the world at that point.
  The answer of the update is not looked at.
\<close>

definition due_try :: "process_env \<Rightarrow> services \<Rightarrow> reminder \<Rightarrow> world \<Rightarrow> string option \<times> world" where
  "due_try pe sv r w =
     (case (if ''email'' \<in> set (methods_of r) \<and> truthy (email r)
            then send_call sv (reminder_email r) w else (None, w)) of
        (Some e, w1) \<Rightarrow> (Some e, w1)
      | (None, w1) \<Rightarrow>
          (case (if ''sms'' \<in> set (methods_of r) \<and> truthy (phone_number r) \<and> twilioClient pe
                 then send_call sv (reminder_sms pe r) w1 else (None, w1)) of
             (Some e, w2) \<Rightarrow> (Some e, w2)
           | (None, w2) \<Rightarrow> (None, snd (store_call sv (UpdateSent (rid r)) w2))))"

text \<open>
  One iteration of the due loop:
  \<^verbatim>\<open>try { ..; results.push({ id: reminder.id, status: 'sent' }); }
  catch (emailError) { results.push({ id: reminder.id, status: 'failed', error: emailError.message }); }\<close>
\<close>

definition due_item ::
  "process_env \<Rightarrow> services \<Rightarrow> reminder \<Rightarrow> outcome list \<times> world \<Rightarrow> outcome list \<times> world" where
  "due_item pe sv r s =
     (case s of (results, w) \<Rightarrow>
        (case due_try pe sv r w of
           (None, w') \<Rightarrow>
             (results @ [\<lparr>entry_id = rid r, status = ''sent'', error = None\<rparr>], w')
         | (Some e, w') \<Rightarrow>
             (results @ [\<lparr>entry_id = rid r, status = ''failed'', error = Some e\<rparr>], w')))"

text \<open>\<^verbatim>\<open>for (const reminder of dueReminders) { .. }\<close>\<close>

fun due_loop ::
  "process_env \<Rightarrow> services \<Rightarrow> reminder list \<Rightarrow> outcome list \<times> world \<Rightarrow> outcome list \<times> world" where
  "due_loop pe sv [] s = s"
| "due_loop pe sv (r # rs) s = due_loop pe sv rs (due_item pe sv r s)"

subsection \<open>Follow-ups\<close>

text \<open>\<^verbatim>\<open>const followUpDelay = 24 * 60 * 60 * 1000;\<close>\<close>

definition followUpDelay :: int where
  "followUpDelay = 24 * 60 * 60 * 1000"

text \<open>
  \<^verbatim>\<open>const baseUrl = process.env.FRONTEND_URL || 'https://www.jaypwadhwani.com';
  const completeUrl = `${baseUrl}/complete.html?id=${reminder.id}`;
  const rescheduleUrl = `${baseUrl}/reschedule.html?id=${reminder.id}`;\<close>
\<close>

definition followup_email :: "process_env \<Rightarrow> reminder \<Rightarrow> delivery" where
  "followup_email pe r =
     (let baseUrl = or_else (FRONTEND_URL pe) ''https://www.jaypwadhwani.com'';
          completeUrl = baseUrl @ ''/complete.html?id='' @ rid r;
          rescheduleUrl = baseUrl @ ''/reschedule.html?id='' @ rid r
      in EmailMsg ''TaskWhisper <noreply@jaypwadhwani.com>'' (email r)
           ''Did you complete your task?''
           (FollowUpHtml (map description (task_list r)) completeUrl rescheduleUrl))"

text \<open>
  \<^verbatim>\<open>(reminder.followup_count || 0) + 1\<close>, as the update writes it: the counter of the row
  is read as a double, \<^verbatim>\<open>null\<close> and 0 give 0, the sum is a double again, and an infinity
  is written as \<^verbatim>\<open>null\<close> by \<^verbatim>\<open>JSON.stringify\<close>.
\<close>

definition next_followup_count :: "reminder \<Rightarrow> int option" where
  "next_followup_count r =
     (case (case followup_count r of None \<Rightarrow> Some 0 | Some n \<Rightarrow> round_double n) of
        None \<Rightarrow> None
      | Some d \<Rightarrow> round_double (d + 1))"

text \<open>
  One iteration of the follow-up loop:
  \<^verbatim>\<open>try {
    await resend.emails.send({..});
    await supabase.from('reminders')
      .update({ last_followup_sent: now.toISOString(), followup_count: (reminder.followup_count || 0) + 1 })
      .eq('id', reminder.id);
    results.push({ id: reminder.id, status: 'followup_sent' });
  } catch (followUpError) {
    results.push({ id: reminder.id, status: 'followup_failed', error: followUpError.message });
  }\<close>
\<close>

definition followup_item ::
  "process_env \<Rightarrow> services \<Rightarrow> int \<Rightarrow> reminder \<Rightarrow> outcome list \<times> world \<Rightarrow> outcome list \<times> world" where
  "followup_item pe sv now r s =
     (case s of (results, w) \<Rightarrow>
        (case send_call sv (followup_email pe r) w of
           (None, w1) \<Rightarrow>
             (results @ [\<lparr>entry_id = rid r, status = ''followup_sent'', error = None\<rparr>],
              snd (store_call sv (UpdateFollowUp (rid r) now (next_followup_count r)) w1))
         | (Some e, w1) \<Rightarrow>
             (results @ [\<lparr>entry_id = rid r, status = ''followup_failed'', error = Some e\<rparr>], w1)))"

text \<open>\<^verbatim>\<open>for (const reminder of followUpReminders || []) { .. }\<close>\<close>

fun followup_loop ::
  "process_env \<Rightarrow> services \<Rightarrow> int \<Rightarrow> reminder list \<Rightarrow> outcome list \<times> world \<Rightarrow> outcome list \<times> world" where
  "followup_loop pe sv now [] s = s"
| "followup_loop pe sv now (r # rs) s = followup_loop pe sv now rs (followup_item pe sv now r s)"

subsection \<open>The cron route\<close>

datatype send_due_response =
  SendDueOk nat "outcome list"
| SendDueError string

text \<open>
  The due-scan: the query for the unsent reminders that are due, then the loop over its
  answer, starting from \<^verbatim>\<open>const results = []\<close>. \<^verbatim>\<open>if (error) throw error\<close> leaves the
  handler through its outer \<^verbatim>\<open>catch\<close>.
\<close>

definition select_due :: "services \<Rightarrow> int \<Rightarrow> world \<Rightarrow> (string + reminder list) \<times> world" where
  "select_due sv now w = store_call sv (SelectDue now) w"

definition due_scan ::
  "process_env \<Rightarrow> services \<Rightarrow> int \<Rightarrow> world \<Rightarrow> string \<times> world + outcome list \<times> world" where
  "due_scan pe sv now w =
     (case select_due sv now w of
        (Inl e, w0) \<Rightarrow> Inl (e, w0)
      | (Inr dueReminders, w0) \<Rightarrow> Inr (due_loop pe sv dueReminders ([], w0)))"

text \<open>
  The follow-up scan: the query with \<^verbatim>\<open>followUpCutoff = now - followUpDelay\<close>, then
  \<^verbatim>\<open>if (followUpError) { console.error(..); } else { for (..) {..} }\<close>.
\<close>

definition select_followup :: "services \<Rightarrow> int \<Rightarrow> world \<Rightarrow> (string + reminder list) \<times> world" where
  "select_followup sv now w = store_call sv (SelectFollowUp (now - followUpDelay)) w"

definition followup_scan ::
  "process_env \<Rightarrow> services \<Rightarrow> int \<Rightarrow> outcome list \<times> world \<Rightarrow> outcome list \<times> world" where
  "followup_scan pe sv now s =
     (case s of (results, w) \<Rightarrow>
        (case select_followup sv now w of
           (Inl followUpError, w') \<Rightarrow> (results, w')
         | (Inr followUpReminders, w') \<Rightarrow>
             followup_loop pe sv now followUpReminders (results, w')))"

text \<open>
  \<^verbatim>\<open>POST /api/reminders/send-due\<close>, with \<open>now\<close> the value of \<^verbatim>\<open>new Date()\<close> at its start:
  \<^verbatim>\<open>if (!supabase || !resend) return res.status(500).json({ success: false, error: 'Services not configured' });
  .. due-scan .. follow-up scan ..
  res.json({ success: true, processed: results.length, results });\<close>
\<close>

definition send_due ::
  "process_env \<Rightarrow> services \<Rightarrow> int \<Rightarrow> world \<Rightarrow> send_due_response \<times> world" where
  "send_due pe sv now w =
     (if \<not> supabase pe \<or> \<not> resend pe then (SendDueError ''Services not configured'', w)
      else
        case due_scan pe sv now w of
          Inl (e, w') \<Rightarrow> (SendDueError e, w')
        | Inr s \<Rightarrow>
            (case followup_scan pe sv now s of
               (results, w') \<Rightarrow> (SendDueOk (length results) results, w')))"

subsection \<open>Health and transcription\<close>

record health_report =
  health_status :: string
  timestamp :: int
  whisperAvailable :: bool
  claudeAvailable :: bool
  emailAvailable :: bool

text \<open>
  \<^verbatim>\<open>GET /api/health\<close>: \<^verbatim>\<open>whisperAvailable: !!process.env.OPENAI_API_KEY\<close>, and so on.
\<close>

definition health :: "process_env \<Rightarrow> int \<Rightarrow> health_report" where
  "health pe now =
     \<lparr>health_status = ''healthy'', timestamp = now,
      whisperAvailable = truthy (OPENAI_API_KEY pe),
      claudeAvailable = truthy (ANTHROPIC_API_KEY pe),
      emailAvailable = truthy (RESEND_API_KEY pe)\<rparr>"

text \<open>
  The file system is the set of the paths that exist. \<^verbatim>\<open>fs.unlinkSync\<close> and
  \<^verbatim>\<open>fs.renameSync\<close> throw when the path does not exist.
\<close>

definition unlinkSync :: "string \<Rightarrow> string set \<Rightarrow> string + string set" where
  "unlinkSync p fs = (if p \<in> fs then Inr (fs - {p}) else Inl (''ENOENT: no such file or directory, unlink '' @ p))"

definition renameSync :: "string \<Rightarrow> string \<Rightarrow> string set \<Rightarrow> string + string set" where
  "renameSync p q fs =
     (if p \<in> fs then Inr (insert q (fs - {p}))
      else Inl (''ENOENT: no such file or directory, rename '' @ p))"

datatype transcribe_response =
  NoAudioFile
| Transcribed string bool
| TranscriptionFailed string

definition mockTranscript :: string where
  "mockTranscript = ''This is a test transcription. Configure your OpenAI API key to enable real Whisper transcription.''"

text \<open>
  The \<^verbatim>\<open>catch\<close> block of the transcription route:
  \<^verbatim>\<open>if (renamedPath && fs.existsSync(renamedPath)) { fs.unlinkSync(renamedPath); }
  else if (req.file && fs.existsSync(req.file.path)) { fs.unlinkSync(req.file.path); }
  res.status(500).json({ error: 'Transcription failed', details: error.message });\<close>
\<close>

definition transcribe_catch ::
  "string option \<Rightarrow> string \<Rightarrow> string \<Rightarrow> string set \<Rightarrow> transcribe_response \<times> string set" where
  "transcribe_catch renamedPath path e fs =
     (TranscriptionFailed e,
      (case renamedPath of
         Some q \<Rightarrow> if q \<noteq> [] \<and> q \<in> fs then fs - {q} else if path \<in> fs then fs - {path} else fs
       | None \<Rightarrow> if path \<in> fs then fs - {path} else fs))"

text \<open>
  \<^verbatim>\<open>POST /api/transcribe\<close>, on the path \<^verbatim>\<open>req.file.path\<close> of the upload if there is one:
  \<^verbatim>\<open>if (!req.file) return res.status(400).json({ error: 'No audio file provided' });
  if (!process.env.OPENAI_API_KEY || process.env.OPENAI_API_KEY === 'your-openai-api-key-here') {
    fs.unlinkSync(req.file.path);
    return res.json({ success: true, transcript: mockTranscript, mock: true });
  }
  renamedPath = req.file.path + '.webm';
  fs.renameSync(req.file.path, renamedPath);
  const transcription = await openai.audio.transcriptions.create({..});
  fs.unlinkSync(renamedPath);
  res.json({ success: true, transcript: transcription.text, mock: false });\<close>
\<close>

definition transcribe ::
  "process_env \<Rightarrow> services \<Rightarrow> string option \<Rightarrow> string set \<Rightarrow> transcribe_response \<times> string set" where
  "transcribe pe sv file fs =
     (case file of
        None \<Rightarrow> (NoAudioFile, fs)
      | Some path \<Rightarrow>
          if \<not> truthy (OPENAI_API_KEY pe) \<or> OPENAI_API_KEY pe = Some ''your-openai-api-key-here''
          then
            (case unlinkSync path fs of
               Inl e \<Rightarrow> transcribe_catch None path e fs
             | Inr fs' \<Rightarrow> (Transcribed mockTranscript True, fs'))
          else
            let renamedPath = path @ ''.webm''
            in (case renameSync path renamedPath fs of
                  Inl e \<Rightarrow> transcribe_catch (Some renamedPath) path e fs
                | Inr fs1 \<Rightarrow>
                    (case whisper sv renamedPath of
                       Inl e \<Rightarrow> transcribe_catch (Some renamedPath) path e fs1
                     | Inr text \<Rightarrow>
                         (case unlinkSync renamedPath fs1 of
                            Inl e \<Rightarrow> transcribe_catch (Some renamedPath) path e fs1
                          | Inr fs2 \<Rightarrow> (Transcribed text False, fs2)))))"

subsection \<open>An example deployment\<close>

text \<open>
  Concrete configurations, service behaviours and tables, on which the theorems below are
  instantiated. The clock of the examples stands at 25 hours after the epoch.
\<close>

definition ex_env :: process_env where
  "ex_env =
     \<lparr>OPENAI_API_KEY = Some ''your-openai-api-key-here'', ANTHROPIC_API_KEY = None,
      RESEND_API_KEY = Some ''re_123'', TWILIO_ACCOUNT_SID = Some ''AC123'',
      TWILIO_AUTH_TOKEN = Some ''secret'', TWILIO_PHONE_NUMBER = Some ''+15550001111'',
      SUPABASE_URL = Some ''https://example.supabase.co'', SUPABASE_KEY = Some ''anon'',
      FRONTEND_URL = None\<rparr>"

definition ex_env_no_email :: process_env where
  "ex_env_no_email = ex_env\<lparr>RESEND_API_KEY := None\<rparr>"

text \<open>Every call is carried out.\<close>

definition ex_services :: services where
  "ex_services =
     \<lparr>store_fault = (\<lambda>n q. None), send_fault = (\<lambda>n m. None),
      whisper = (\<lambda>p. Inr ''call the doctor'')\<rparr>"

text \<open>Every email is refused; text messages go through.\<close>

definition ex_email_down :: services where
  "ex_email_down =
     ex_services\<lparr>send_fault :=
       (\<lambda>n m. case m of EmailMsg f t s h \<Rightarrow> Some ''invalid API key'' | SmsMsg b f t \<Rightarrow> None)\<rparr>"

text \<open>The table does not answer the due query.\<close>

definition ex_due_query_down :: services where
  "ex_due_query_down =
     ex_services\<lparr>store_fault :=
       (\<lambda>n q. case q of SelectDue t \<Rightarrow> Some ''fetch failed'' | _ \<Rightarrow> None)\<rparr>"

text \<open>The table does not answer the follow-up query.\<close>

definition ex_followup_query_down :: services where
  "ex_followup_query_down =
     ex_services\<lparr>store_fault :=
       (\<lambda>n q. case q of SelectFollowUp t \<Rightarrow> Some ''fetch failed'' | _ \<Rightarrow> None)\<rparr>"

text \<open>The table refuses the update of \<open>sent\<close>; everything else is carried out.\<close>

definition ex_sent_update_down :: services where
  "ex_sent_update_down =
     ex_services\<lparr>store_fault :=
       (\<lambda>n q. case q of UpdateSent i \<Rightarrow> Some ''permission denied'' | _ \<Rightarrow> None)\<rparr>"

text \<open>The table refuses the update of the follow-up fields; everything else is carried out.\<close>

definition ex_followup_update_down :: services where
  "ex_followup_update_down =
     ex_services\<lparr>store_fault :=
       (\<lambda>n q. case q of UpdateFollowUp i t c \<Rightarrow> Some ''permission denied'' | _ \<Rightarrow> None)\<rparr>"

definition ex_now :: int where
  "ex_now = 90000000"

definition ex_task :: task where
  "ex_task =
     \<lparr>description = ''Call doctor'', suggestedDate = ''Tomorrow at 2pm'',
      priority = ''urgent'', category = ''health''\<rparr>"

text \<open>A due reminder for the email channel only.\<close>

definition ex_reminder :: reminder where
  "ex_reminder =
     \<lparr>rid = ''r1'', email = Some ''ann@example.org'', phone_number = None,
      transcript = ''call the doctor'', tasks = Some [ex_task],
      email_draft = Some ''Hi! A reminder.'', scheduled_for = 89999000,
      notification_methods = Some [''email''], sent = False, completed = False,
      last_followup_sent = None, followup_count = Some 0\<rparr>"

text \<open>A due reminder for the SMS channel only.\<close>

definition ex_sms_reminder :: reminder where
  "ex_sms_reminder =
     ex_reminder\<lparr>rid := ''r2'', phone_number := Some ''555-123-4567'',
       notification_methods := Some [''sms'']\<rparr>"

text \<open>A due reminder with no recipient on any selected channel.\<close>

definition ex_silent_reminder :: reminder where
  "ex_silent_reminder =
     ex_reminder\<lparr>rid := ''r5'', email := None, notification_methods := Some [''email'', ''sms'']\<rparr>"

text \<open>A reminder sent 25 hours ago, and one sent 23 hours ago; neither is completed.\<close>

definition ex_followup_reminder :: reminder where
  "ex_followup_reminder =
     ex_reminder\<lparr>rid := ''r3'', scheduled_for := 0, sent := True\<rparr>"

definition ex_recent_reminder :: reminder where
  "ex_recent_reminder =
     ex_reminder\<lparr>rid := ''r4'', scheduled_for := 7200000, sent := True\<rparr>"

text \<open>A reminder that was sent, followed up once and then completed.\<close>

definition ex_done_reminder :: reminder where
  "ex_done_reminder =
     ex_reminder\<lparr>rid := ''r6'', scheduled_for := 0, sent := True, completed := True,
       last_followup_sent := Some 86400000, followup_count := Some 1\<rparr>"

definition ex_world :: world where
  "ex_world =
     \<lparr>rows = [ex_reminder, ex_sms_reminder, ex_followup_reminder, ex_recent_reminder],
      outbox = [], tick = 0\<rparr>"

definition ex_due_world :: world where
  "ex_due_world = \<lparr>rows = [ex_reminder], outbox = [], tick = 0\<rparr>"

definition ex_sms_world :: world where
  "ex_sms_world = \<lparr>rows = [ex_sms_reminder], outbox = [], tick = 0\<rparr>"

definition ex_done_world :: world where
  "ex_done_world = \<lparr>rows = [ex_reminder, ex_done_reminder], outbox = [], tick = 0\<rparr>"

definition ex_silent_world :: world where
  "ex_silent_world = \<lparr>rows = [ex_silent_reminder], outbox = [], tick = 0\<rparr>"

definition ex_followup_world :: world where
  "ex_followup_world = \<lparr>rows = [ex_followup_reminder], outbox = [], tick = 0\<rparr>"

section \<open>Properties\<close>

subsection \<open>JavaScript numbers\<close>

lemma bit_length_le: "n < 2 ^ k \<Longrightarrow> bit_length n \<le> k"
proof (induction k arbitrary: n)
  case 0
  then show ?case by (simp add: bit_length.simps)
next
  case (Suc k)
  show ?case
  proof (cases "n = 0")
    case True
    then show ?thesis by (simp add: bit_length.simps)
  next
    case False
    from Suc.prems have "n div 2 < 2 ^ k" by simp
    then have "bit_length (n div 2) \<le> k" by (rule Suc.IH)
    with False show ?thesis by (simp add: bit_length.simps [of n])
  qed
qed

lemma bit_length_eq: "2 ^ k \<le> n \<Longrightarrow> n < 2 ^ Suc k \<Longrightarrow> bit_length n = Suc k"
proof (induction k arbitrary: n)
  case 0
  then have "n = 1" by simp
  then show ?case by (simp add: bit_length.simps [of "Suc 0"] bit_length.simps [of 0])
next
  case (Suc k)
  then have "2 ^ k \<le> n div 2" "n div 2 < 2 ^ Suc k" by simp_all
  then have "bit_length (n div 2) = Suc k" by (rule Suc.IH)
  moreover have "n \<noteq> 0" using Suc.prems by auto
  ultimately show ?case by (simp add: bit_length.simps [of n])
qed

lemma max_double_ge: "2 ^ 54 \<le> max_double"
proof -
  have "(2::int) ^ 54 \<le> 1 * 2 ^ 971" by (simp add: power_increasing)
  also have "\<dots> \<le> (2 ^ 53 - 1) * 2 ^ 971" by (intro mult_right_mono) simp_all
  finally show ?thesis by (simp add: max_double_def)
qed

text \<open>Below \<open>2 ^ 53\<close> in magnitude every integer is a double.\<close>

lemma round_double_small:
  assumes "\<bar>x\<bar> < 2 ^ 53"
  shows "round_double x = Some x"
proof -
  have "nat \<bar>x\<bar> < 2 ^ 53" using assms by (simp add: nat_less_iff)
  then have "bit_length (nat \<bar>x\<bar>) - 53 = 0"
    using bit_length_le [of "nat \<bar>x\<bar>" 53] by simp
  moreover have "(2::int) ^ 53 \<le> 2 ^ 54" by simp
  with assms max_double_ge have "\<bar>x\<bar> \<le> max_double" by linarith
  ultimately show ?thesis
    by (simp add: round_double_def Let_def sgn_if)
qed

text \<open>From \<open>2 ^ 53\<close> up to \<open>2 ^ 54\<close> the doubles are the even integers.\<close>

lemma round_double_binade_53:
  assumes "2 ^ 53 \<le> x" and "x < 2 ^ 54"
  shows "round_double x = Some (if odd x \<and> odd (x div 2) then 2 * (x div 2 + 1) else 2 * (x div 2))"
proof -
  have "2 ^ 53 \<le> nat x" "nat x < 2 ^ Suc 53"
    using assms by (simp_all add: le_nat_iff nat_less_iff)
  then have k: "bit_length (nat x) - 53 = 1"
    using bit_length_eq [of 53 "nat x"] by simp
  have pos: "\<bar>x\<bar> = x" "sgn x = 1" using assms(1) by (simp_all add: sgn_if)
  have r: "x mod 2 = (if odd x then 1 else 0)" by (simp add: odd_iff_mod_2_eq_one)
  have "2 * (x div 2 + 1) \<le> 2 ^ 54" using assms(2) by simp
  with max_double_ge have le1: "\<not> max_double < (x div 2 + 1) * 2" by simp
  have "2 * (x div 2) \<le> 2 ^ 54" using assms(2) by simp
  with max_double_ge have le2: "\<not> max_double < (x div 2) * 2" by simp
  have le3: "\<not> max_double < x" using assms(2) max_double_ge by linarith
  show ?thesis
    using le1 le2 le3 by (simp add: round_double_def Let_def pos k r)
qed

text \<open>
  The counter written by a follow-up: one more than the counter read, as long as that is
  below \<open>2 ^ 53\<close> in magnitude; 1 for a null counter; and at \<open>2 ^ 53\<close> the sum rounds back
  to \<open>2 ^ 53\<close>.
\<close>

lemma next_followup_count_exact:
  assumes "followup_count r = Some n" and "\<bar>n\<bar> < 2 ^ 53"
  shows "next_followup_count r = Some (n + 1)"
proof (cases "n + 1 < 2 ^ 53")
  case True
  with assms(2) have "\<bar>n + 1\<bar> < 2 ^ 53" by simp
  then show ?thesis
    using assms by (simp add: next_followup_count_def round_double_small)
next
  case False
  with assms(2) have n: "n + 1 = 2 ^ 53" by simp
  have "round_double (2 ^ 53) = Some (2 ^ 53)"
    by (simp add: round_double_binade_53)
  with n have "round_double (n + 1) = Some (n + 1)" by simp
  then show ?thesis
    using assms by (simp add: next_followup_count_def round_double_small)
qed

lemma next_followup_count_null:
  assumes "followup_count r = None"
  shows "next_followup_count r = Some 1"
  using assms by (simp add: next_followup_count_def round_double_small)

lemma next_followup_count_2_53:
  assumes "followup_count r = Some (2 ^ 53)"
  shows "next_followup_count r = Some (2 ^ 53)"
proof -
  have "round_double (2 ^ 53) = Some (2 ^ 53)"
    by (simp add: round_double_binade_53)
  moreover have "round_double (2 ^ 53 + 1) = Some (2 ^ 53)"
    by (simp add: round_double_binade_53)
  ultimately show ?thesis
    using assms by (simp add: next_followup_count_def)
qed

subsection \<open>The table and the external calls\<close>

lemma get_row_update_where:
  assumes "\<And>x. rid (g x) = rid x"
  shows "get_row (update_where j g rs) i = (if i = j then map_option g (get_row rs i) else get_row rs i)"
  by (induction rs) (auto simp: get_row_def update_where_def assms)

lemma map_rid_update_where:
  assumes "\<And>x. rid (g x) = rid x"
  shows "map rid (update_where j g rs) = map rid rs"
  by (induction rs) (auto simp: update_where_def assms)

lemma get_row_Some: "get_row rs i = Some x \<Longrightarrow> x \<in> set rs \<and> rid x = i"
  by (induction rs) (auto simp: get_row_def split: if_splits)

lemma get_row_distinct:
  "distinct (map rid rs) \<Longrightarrow> r \<in> set rs \<Longrightarrow> get_row rs (rid r) = Some r"
  by (induction rs) (auto simp: get_row_def)

lemma filter_rid_distinct:
  "distinct (map rid rs) \<Longrightarrow> r \<in> set rs \<Longrightarrow> filter (\<lambda>x. rid x = rid r) rs = [r]"
proof (induction rs)
  case Nil
  then show ?case by simp
next
  case (Cons a rs)
  show ?case
  proof (cases "a = r")
    case True
    have "filter (\<lambda>x. rid x = rid r) rs = []"
      using Cons.prems True by (auto simp: filter_empty_conv image_iff)
    with True show ?thesis by simp
  next
    case False
    with Cons.prems have "r \<in> set rs" "rid a \<noteq> rid r" by auto
    with Cons show ?thesis by simp
  qed
qed

lemma store_call_ok:
  "store_fault sv (tick w) q = None \<Longrightarrow>
   store_call sv q w =
     (Inr (query_data q (apply_query q (rows w))),
      w\<lparr>rows := apply_query q (rows w), tick := tick w + 1\<rparr>)"
  by (simp add: store_call_def)

lemma store_call_fault:
  "store_fault sv (tick w) q = Some e \<Longrightarrow> store_call sv q w = (Inl e, w\<lparr>tick := tick w + 1\<rparr>)"
  by (simp add: store_call_def)

lemma store_call_outbox: "outbox (snd (store_call sv q w)) = outbox w"
  by (simp add: store_call_def split: option.splits)

lemma store_call_rows:
  "rows (snd (store_call sv q w)) =
     (if store_fault sv (tick w) q = None then apply_query q (rows w) else rows w)"
  by (auto simp: store_call_def split: option.splits)

subsection \<open>The due loop\<close>

lemma due_try_Some_rows: "due_try pe sv r w = (Some e, w') \<Longrightarrow> rows w' = rows w"
  by (auto simp: due_try_def send_call_def split: if_splits option.splits prod.splits)

lemma due_try_None_rows:
  assumes "due_try pe sv r w = (None, w')"
  shows "rows w' = rows w \<or> rows w' = update_where (rid r) (\<lambda>x. x\<lparr>sent := True\<rparr>) (rows w)"
  using assms
  by (auto simp: due_try_def send_call_def store_call_def split: if_splits option.splits prod.splits)

lemma due_try_outbox: "due_try pe sv r w = (e, w') \<Longrightarrow> \<exists>ms. outbox w' = outbox w @ ms"
  by (auto simp: due_try_def send_call_def store_call_def split: if_splits option.splits prod.splits)

lemma due_item_eq:
  "due_item pe sv r (res, w) =
     (res @ [\<lparr>entry_id = rid r,
               status = (if fst (due_try pe sv r w) = None then ''sent'' else ''failed''),
               error = fst (due_try pe sv r w)\<rparr>],
      snd (due_try pe sv r w))"
  by (cases "due_try pe sv r w") (auto simp: due_item_def split: option.splits)

lemma due_loop_append:
  "due_loop pe sv (xs @ ys) s = due_loop pe sv ys (due_loop pe sv xs s)"
  by (induction xs arbitrary: s) simp_all

lemma due_loop_frame:
  "\<exists>added w'. due_loop pe sv rs (res, w) = (res @ added, w')
     \<and> map entry_id added = map rid rs
     \<and> (\<forall>x \<in> set added. (status x = ''sent'' \<and> error x = None) \<or> (status x = ''failed'' \<and> error x \<noteq> None))
     \<and> (\<forall>i. i \<notin> rid ` set rs \<longrightarrow> get_row (rows w') i = get_row (rows w) i)
     \<and> map rid (rows w') = map rid (rows w)
     \<and> (\<exists>ms. outbox w' = outbox w @ ms)"
proof (induction rs arbitrary: res w)
  case Nil
  then show ?case by simp
next
  case (Cons r rs)
  obtain e w1 where t: "due_try pe sv r w = (e, w1)" by (cases "due_try pe sv r w")
  let ?x = "\<lparr>entry_id = rid r, status = (if e = None then ''sent'' else ''failed''), error = e\<rparr>"
  have item: "due_item pe sv r (res, w) = (res @ [?x], w1)"
    using t by (simp add: due_item_eq)
  from Cons.IH [of "res @ [?x]" w1] obtain added w' where
    loop: "due_loop pe sv rs (res @ [?x], w1) = ((res @ [?x]) @ added, w')"
    and ids: "map entry_id added = map rid rs"
    and st: "\<forall>x \<in> set added. (status x = ''sent'' \<and> error x = None) \<or> (status x = ''failed'' \<and> error x \<noteq> None)"
    and fr: "\<forall>i. i \<notin> rid ` set rs \<longrightarrow> get_row (rows w') i = get_row (rows w1) i"
    and ids': "map rid (rows w') = map rid (rows w1)"
    and ob: "\<exists>ms. outbox w' = outbox w1 @ ms"
    by blast
  have rows1: "rows w1 = rows w \<or> rows w1 = update_where (rid r) (\<lambda>x. x\<lparr>sent := True\<rparr>) (rows w)"
    using t due_try_Some_rows due_try_None_rows by (cases e) blast+
  have fr1: "i \<noteq> rid r \<Longrightarrow> get_row (rows w1) i = get_row (rows w) i" for i
    using rows1 by (auto simp: get_row_update_where)
  have ids1: "map rid (rows w1) = map rid (rows w)"
    using rows1 by (auto simp: map_rid_update_where)
  have "due_loop pe sv (r # rs) (res, w) = (res @ (?x # added), w')"
    using item loop by simp
  moreover have "map entry_id (?x # added) = map rid (r # rs)"
    using ids by simp
  moreover have "\<forall>x \<in> set (?x # added). (status x = ''sent'' \<and> error x = None) \<or> (status x = ''failed'' \<and> error x \<noteq> None)"
    using st by auto
  moreover have "\<forall>i. i \<notin> rid ` set (r # rs) \<longrightarrow> get_row (rows w') i = get_row (rows w) i"
    using fr fr1 by auto
  moreover have "map rid (rows w') = map rid (rows w)"
    using ids' ids1 by simp
  moreover have "\<exists>ms. outbox w' = outbox w @ ms"
    using ob due_try_outbox [OF t] by auto
  ultimately show ?case by blast
qed

lemma due_loop_at:
  assumes "distinct (map rid rs)" and "r \<in> set rs"
  shows "\<exists>a1 w1 e w2 a3 w3.
           due_try pe sv r w1 = (e, w2)
         \<and> due_loop pe sv rs (res, w)
             = (res @ a1 @ [\<lparr>entry_id = rid r,
                              status = (if e = None then ''sent'' else ''failed''),
                              error = e\<rparr>] @ a3, w3)
         \<and> rid r \<notin> entry_id ` set a1 \<and> rid r \<notin> entry_id ` set a3
         \<and> (\<forall>x \<in> set (a1 @ a3). (status x = ''sent'' \<and> error x = None)
                               \<or> (status x = ''failed'' \<and> error x \<noteq> None))
         \<and> get_row (rows w1) (rid r) = get_row (rows w) (rid r)
         \<and> get_row (rows w3) (rid r) = get_row (rows w2) (rid r)
         \<and> map rid (rows w3) = map rid (rows w)
         \<and> (\<exists>ms. outbox w1 = outbox w @ ms)
         \<and> (\<exists>ms. outbox w3 = outbox w2 @ ms)"
proof -
  from assms(2) obtain pre post where rs: "rs = pre @ r # post"
    by (auto simp: in_set_conv_decomp)
  with assms(1) have npre: "rid r \<notin> rid ` set pre" and npost: "rid r \<notin> rid ` set post"
    by auto
  from due_loop_frame [of pe sv pre res w] obtain a1 w1 where
    l1: "due_loop pe sv pre (res, w) = (res @ a1, w1)"
    and id1: "map entry_id a1 = map rid pre"
    and st1: "\<forall>x \<in> set a1. (status x = ''sent'' \<and> error x = None) \<or> (status x = ''failed'' \<and> error x \<noteq> None)"
    and fr1: "\<forall>i. i \<notin> rid ` set pre \<longrightarrow> get_row (rows w1) i = get_row (rows w) i"
    and ids1: "map rid (rows w1) = map rid (rows w)"
    and ob1: "\<exists>ms. outbox w1 = outbox w @ ms"
    by blast
  obtain e w2 where t: "due_try pe sv r w1 = (e, w2)" by (cases "due_try pe sv r w1")
  have "rows w2 = rows w1 \<or> rows w2 = update_where (rid r) (\<lambda>x. x\<lparr>sent := True\<rparr>) (rows w1)"
    using t due_try_Some_rows due_try_None_rows by (cases e) blast+
  then have ids2: "map rid (rows w2) = map rid (rows w1)"
    by (auto simp: map_rid_update_where)
  let ?x = "\<lparr>entry_id = rid r, status = (if e = None then ''sent'' else ''failed''), error = e\<rparr>"
  have item: "due_item pe sv r (res @ a1, w1) = ((res @ a1) @ [?x], w2)"
    using t by (simp add: due_item_eq)
  from due_loop_frame [of pe sv post "(res @ a1) @ [?x]" w2] obtain a3 w3 where
    l3: "due_loop pe sv post ((res @ a1) @ [?x], w2) = (((res @ a1) @ [?x]) @ a3, w3)"
    and id3: "map entry_id a3 = map rid post"
    and st3: "\<forall>x \<in> set a3. (status x = ''sent'' \<and> error x = None) \<or> (status x = ''failed'' \<and> error x \<noteq> None)"
    and fr3: "\<forall>i. i \<notin> rid ` set post \<longrightarrow> get_row (rows w3) i = get_row (rows w2) i"
    and ids3: "map rid (rows w3) = map rid (rows w2)"
    and ob3: "\<exists>ms. outbox w3 = outbox w2 @ ms"
    by blast
  have "entry_id ` set a1 = rid ` set pre"
    using id1 by (metis set_map)
  with npre have n1: "rid r \<notin> entry_id ` set a1" by simp
  have "entry_id ` set a3 = rid ` set post"
    using id3 by (metis set_map)
  with npost have n3: "rid r \<notin> entry_id ` set a3" by simp
  have "due_loop pe sv rs (res, w) = (res @ a1 @ [?x] @ a3, w3)"
    using rs l1 item l3 by (simp add: due_loop_append)
  moreover have "\<forall>x \<in> set (a1 @ a3). (status x = ''sent'' \<and> error x = None)
                               \<or> (status x = ''failed'' \<and> error x \<noteq> None)"
    using st1 st3 by auto
  moreover have "get_row (rows w1) (rid r) = get_row (rows w) (rid r)"
    using fr1 npre by simp
  moreover have "get_row (rows w3) (rid r) = get_row (rows w2) (rid r)"
    using fr3 npost by simp
  moreover have "map rid (rows w3) = map rid (rows w)"
    using ids1 ids2 ids3 by simp
  ultimately show ?thesis
    using t n1 n3 ob1 ob3 by blast
qed

subsection \<open>The follow-up loop\<close>

lemma followup_item_eq:
  "followup_item pe sv now r (res, w) =
     (case send_fault sv (tick w) (followup_email pe r) of
        None \<Rightarrow>
          (res @ [\<lparr>entry_id = rid r, status = ''followup_sent'', error = None\<rparr>],
           snd (store_call sv (UpdateFollowUp (rid r) now (next_followup_count r))
                  (w\<lparr>outbox := outbox w @ [followup_email pe r], tick := tick w + 1\<rparr>)))
      | Some e \<Rightarrow>
          (res @ [\<lparr>entry_id = rid r, status = ''followup_failed'', error = Some e\<rparr>],
           w\<lparr>tick := tick w + 1\<rparr>))"
  by (simp add: followup_item_def send_call_def split: option.splits)

lemma followup_item_rows:
  "rows (snd (followup_item pe sv now r (res, w))) = rows w
   \<or> (send_fault sv (tick w) (followup_email pe r) = None
      \<and> rows (snd (followup_item pe sv now r (res, w)))
          = update_where (rid r)
              (\<lambda>x. x\<lparr>last_followup_sent := Some now, followup_count := next_followup_count r\<rparr>)
              (rows w))"
  by (auto simp: followup_item_eq store_call_rows split: option.splits)

lemma followup_item_outbox:
  "\<exists>ms. outbox (snd (followup_item pe sv now r (res, w))) = outbox w @ ms"
  by (auto simp: followup_item_eq store_call_outbox split: option.splits)

lemma followup_item_results:
  "\<exists>x. fst (followup_item pe sv now r (res, w)) = res @ [x] \<and> entry_id x = rid r
     \<and> ((status x = ''followup_sent'' \<and> error x = None)
        \<or> (status x = ''followup_failed'' \<and> error x \<noteq> None))"
  by (auto simp: followup_item_eq split: option.splits)

lemma followup_loop_frame:
  "\<exists>added w'. followup_loop pe sv now rs (res, w) = (res @ added, w')
     \<and> map entry_id added = map rid rs
     \<and> (\<forall>x \<in> set added. (status x = ''followup_sent'' \<and> error x = None)
                         \<or> (status x = ''followup_failed'' \<and> error x \<noteq> None))
     \<and> (\<forall>i. i \<notin> rid ` set rs \<longrightarrow> get_row (rows w') i = get_row (rows w) i)
     \<and> (\<forall>i. map_option sent (get_row (rows w') i) = map_option sent (get_row (rows w) i))
     \<and> (\<exists>ms. outbox w' = outbox w @ ms)"
proof (induction rs arbitrary: res w)
  case Nil
  then show ?case by simp
next
  case (Cons r rs)
  obtain res1 w1 where item: "followup_item pe sv now r (res, w) = (res1, w1)"
    by (cases "followup_item pe sv now r (res, w)")
  obtain x where x: "res1 = res @ [x]" "entry_id x = rid r"
      "(status x = ''followup_sent'' \<and> error x = None) \<or> (status x = ''followup_failed'' \<and> error x \<noteq> None)"
    using followup_item_results [of pe sv now r res w] item by auto
  have rows1: "rows w1 = rows w
      \<or> rows w1 = update_where (rid r)
           (\<lambda>x. x\<lparr>last_followup_sent := Some now, followup_count := next_followup_count r\<rparr>)
           (rows w)"
    using followup_item_rows [of pe sv now r res w] item by auto
  have fr1: "i \<noteq> rid r \<Longrightarrow> get_row (rows w1) i = get_row (rows w) i" for i
    using rows1 by (auto simp: get_row_update_where)
  have sent1: "map_option sent (get_row (rows w1) i) = map_option sent (get_row (rows w) i)" for i
    using rows1 by (auto simp: get_row_update_where option.map_comp comp_def)
  have ob1: "\<exists>ms. outbox w1 = outbox w @ ms"
    using followup_item_outbox [of pe sv now r res w] item by simp
  from Cons.IH [of "res @ [x]" w1] obtain added w' where
    loop: "followup_loop pe sv now rs (res @ [x], w1) = ((res @ [x]) @ added, w')"
    and ids: "map entry_id added = map rid rs"
    and st: "\<forall>x \<in> set added. (status x = ''followup_sent'' \<and> error x = None)
                         \<or> (status x = ''followup_failed'' \<and> error x \<noteq> None)"
    and fr: "\<forall>i. i \<notin> rid ` set rs \<longrightarrow> get_row (rows w') i = get_row (rows w1) i"
    and se: "\<forall>i. map_option sent (get_row (rows w') i) = map_option sent (get_row (rows w1) i)"
    and ob: "\<exists>ms. outbox w' = outbox w1 @ ms"
    by blast
  have "followup_loop pe sv now (r # rs) (res, w) = (res @ (x # added), w')"
    using item x(1) loop by simp
  moreover have "map entry_id (x # added) = map rid (r # rs)"
    using ids x(2) by simp
  moreover have "\<forall>x \<in> set (x # added). (status x = ''followup_sent'' \<and> error x = None)
                         \<or> (status x = ''followup_failed'' \<and> error x \<noteq> None)"
    using st x(3) by auto
  moreover have "\<forall>i. i \<notin> rid ` set (r # rs) \<longrightarrow> get_row (rows w') i = get_row (rows w) i"
    using fr fr1 by auto
  moreover have "\<forall>i. map_option sent (get_row (rows w') i) = map_option sent (get_row (rows w) i)"
    using se sent1 by simp
  moreover have "\<exists>ms. outbox w' = outbox w @ ms"
    using ob ob1 by auto
  ultimately show ?case by blast
qed

lemma followup_scan_frame:
  "\<exists>added w'. followup_scan pe sv now (res, w) = (res @ added, w')
     \<and> (\<forall>x \<in> set added. (status x = ''followup_sent'' \<and> error x = None)
                         \<or> (status x = ''followup_failed'' \<and> error x \<noteq> None))
     \<and> (\<forall>i. map_option sent (get_row (rows w') i) = map_option sent (get_row (rows w) i))
     \<and> (\<exists>ms. outbox w' = outbox w @ ms)"
proof (cases "store_fault sv (tick w) (SelectFollowUp (now - followUpDelay))")
  case (Some e)
  then have "followup_scan pe sv now (res, w) = (res @ [], w\<lparr>tick := tick w + 1\<rparr>)"
    by (simp add: followup_scan_def select_followup_def store_call_fault)
  then show ?thesis by force
next
  case None
  let ?w = "w\<lparr>tick := tick w + 1\<rparr>"
  let ?fu = "filter (needs_followup (now - followUpDelay)) (rows w)"
  have scan: "followup_scan pe sv now (res, w) = followup_loop pe sv now ?fu (res, ?w)"
    using None by (simp add: followup_scan_def select_followup_def store_call_ok)
  from followup_loop_frame [of pe sv now ?fu res ?w] scan show ?thesis
    by (simp del: set_filter) blast
qed

lemma followup_scan_unsent:
  assumes "distinct (map rid (rows w))" and "get_row (rows w) i = Some x" and "\<not> sent x"
  shows "get_row (rows (snd (followup_scan pe sv now (res, w)))) i = Some x"
proof (cases "store_fault sv (tick w) (SelectFollowUp (now - followUpDelay))")
  case (Some e)
  then show ?thesis
    using assms(2) by (simp add: followup_scan_def select_followup_def store_call_fault)
next
  case None
  let ?w = "w\<lparr>tick := tick w + 1\<rparr>"
  let ?fu = "filter (needs_followup (now - followUpDelay)) (rows w)"
  have scan: "followup_scan pe sv now (res, w) = followup_loop pe sv now ?fu (res, ?w)"
    using None by (simp add: followup_scan_def select_followup_def store_call_ok)
  have x: "x \<in> set (rows w)" "rid x = i"
    using get_row_Some [OF assms(2)] by simp_all
  have "i \<notin> rid ` set ?fu"
  proof
    assume "i \<in> rid ` set ?fu"
    then obtain y where y: "y \<in> set (rows w)" "needs_followup (now - followUpDelay) y" "rid y = i"
      by auto
    with x assms(1) have "y = x" by (metis distinct_map inj_on_def)
    with y(2) assms(3) show False by (simp add: needs_followup_def)
  qed
  with followup_loop_frame [of pe sv now ?fu res ?w] scan assms(2) show ?thesis
    by (auto simp del: set_filter)
qed

subsection \<open>One invocation\<close>

lemma due_scan_ok:
  assumes "store_fault sv (tick w) (SelectDue now) = None"
  shows "due_scan pe sv now w
           = Inr (due_loop pe sv (filter (is_due now) (rows w)) ([], w\<lparr>tick := tick w + 1\<rparr>))"
  using assms by (simp add: due_scan_def select_due_def store_call_ok)

lemma send_due_ok:
  assumes "supabase pe" and "resend pe" and "store_fault sv (tick w) (SelectDue now) = None"
  shows "send_due pe sv now w =
     (SendDueOk
        (length (fst (followup_scan pe sv now
           (due_loop pe sv (filter (is_due now) (rows w)) ([], w\<lparr>tick := tick w + 1\<rparr>)))))
        (fst (followup_scan pe sv now
           (due_loop pe sv (filter (is_due now) (rows w)) ([], w\<lparr>tick := tick w + 1\<rparr>)))),
      snd (followup_scan pe sv now
           (due_loop pe sv (filter (is_due now) (rows w)) ([], w\<lparr>tick := tick w + 1\<rparr>))))"
  using assms by (simp add: send_due_def due_scan_ok split: prod.splits)

lemma send_due_at:
  assumes "supabase pe" and "resend pe"
    and "store_fault sv (tick w) (SelectDue now) = None"
    and "distinct (map rid (rows w))"
    and "r \<in> set (rows w)" and "is_due now r"
  shows "\<exists>w1 e w2 results w'.
           due_try pe sv r w1 = (e, w2)
         \<and> get_row (rows w1) (rid r) = Some r
         \<and> send_due pe sv now w = (SendDueOk (length results) results, w')
         \<and> \<lparr>entry_id = rid r, status = (if e = None then ''sent'' else ''failed''), error = e\<rparr>
             \<in> set results
         \<and> length (filter (\<lambda>x. entry_id x = rid r \<and> status x \<in> {''sent'', ''failed''}) results) = 1
         \<and> map_option sent (get_row (rows w') (rid r)) = map_option sent (get_row (rows w2) (rid r))
         \<and> (\<forall>x. get_row (rows w2) (rid r) = Some x \<and> \<not> sent x
                \<longrightarrow> get_row (rows w') (rid r) = Some x)
         \<and> (\<exists>ms. outbox w' = outbox w2 @ ms)"
proof -
  let ?due = "filter (is_due now) (rows w)"
  let ?w0 = "w\<lparr>tick := tick w + 1\<rparr>"
  have dist: "distinct (map rid ?due)"
    using assms(4) by (rule distinct_map_filter)
  have mem: "r \<in> set ?due"
    using assms(5,6) by simp
  from due_loop_at [OF dist mem, of pe sv "[]" ?w0] obtain a1 w1 e w2 a3 w3 where
    t: "due_try pe sv r w1 = (e, w2)"
    and loop: "due_loop pe sv ?due ([], ?w0)
             = ([] @ a1 @ [\<lparr>entry_id = rid r,
                              status = (if e = None then ''sent'' else ''failed''),
                              error = e\<rparr>] @ a3, w3)"
    and n1: "rid r \<notin> entry_id ` set a1" and n3: "rid r \<notin> entry_id ` set a3"
    and g1: "get_row (rows w1) (rid r) = get_row (rows ?w0) (rid r)"
    and g3: "get_row (rows w3) (rid r) = get_row (rows w2) (rid r)"
    and ids3: "map rid (rows w3) = map rid (rows ?w0)"
    and ob3: "\<exists>ms. outbox w3 = outbox w2 @ ms"
    by blast
  let ?x = "\<lparr>entry_id = rid r, status = (if e = None then ''sent'' else ''failed''), error = e\<rparr>"
  let ?res3 = "a1 @ [?x] @ a3"
  have dist3: "distinct (map rid (rows w3))"
    using ids3 assms(4) by simp
  from followup_scan_frame [of pe sv now ?res3 w3] obtain a4 w4 where
    scan: "followup_scan pe sv now (?res3, w3) = (?res3 @ a4, w4)"
    and st4: "\<forall>x \<in> set a4. (status x = ''followup_sent'' \<and> error x = None)
                         \<or> (status x = ''followup_failed'' \<and> error x \<noteq> None)"
    and se4: "\<forall>i. map_option sent (get_row (rows w4) i) = map_option sent (get_row (rows w3) i)"
    and ob4: "\<exists>ms. outbox w4 = outbox w3 @ ms"
    by blast
  let ?results = "?res3 @ a4"
  have run: "send_due pe sv now w = (SendDueOk (length ?results) ?results, w4)"
    using send_due_ok [OF assms(1,2,3)] loop scan by simp
  have row1: "get_row (rows w1) (rid r) = Some r"
    using g1 get_row_distinct [OF assms(4,5)] by simp
  have no4: "\<forall>x \<in> set a4. status x \<noteq> ''sent'' \<and> status x \<noteq> ''failed''"
    using st4 by auto
  have f1: "filter (\<lambda>x. entry_id x = rid r \<and> status x \<in> {''sent'', ''failed''}) a1 = []"
    using n1 by (auto simp: filter_empty_conv image_iff)
  have f3: "filter (\<lambda>x. entry_id x = rid r \<and> status x \<in> {''sent'', ''failed''}) a3 = []"
    using n3 by (auto simp: filter_empty_conv image_iff)
  have f4: "filter (\<lambda>x. entry_id x = rid r \<and> status x \<in> {''sent'', ''failed''}) a4 = []"
    using no4 by (auto simp: filter_empty_conv)
  have one: "length (filter (\<lambda>x. entry_id x = rid r \<and> status x \<in> {''sent'', ''failed''}) ?results) = 1"
    using f1 f3 f4 by simp
  have "?x \<in> set ?results" by simp
  moreover have "map_option sent (get_row (rows w4) (rid r)) = map_option sent (get_row (rows w2) (rid r))"
    using se4 g3 by simp
  moreover have "\<forall>x. get_row (rows w2) (rid r) = Some x \<and> \<not> sent x
                \<longrightarrow> get_row (rows w4) (rid r) = Some x"
    using followup_scan_unsent [OF dist3, of "rid r" _ pe sv now ?res3] g3 scan by simp
  moreover have "\<exists>ms. outbox w4 = outbox w2 @ ms"
    using ob3 ob4 by auto
  ultimately show ?thesis
    using t row1 run one by blast
qed

lemma due_try_sms_only:
  assumes "notification_methods r = Some [''sms'']" and "truthy (phone_number r)"
    and "twilioClient pe"
    and "send_fault sv (tick w) (reminder_sms pe r) = None"
  shows "due_try pe sv r w
           = (None, snd (store_call sv (UpdateSent (rid r))
                          (w\<lparr>outbox := outbox w @ [reminder_sms pe r], tick := tick w + 1\<rparr>)))"
  using assms by (simp add: due_try_def methods_of_def send_call_def)

lemma due_try_email_only:
  assumes "notification_methods r = Some [''email'']" and "truthy (email r)"
    and "send_fault sv (tick w) (reminder_email r) = Some e"
  shows "due_try pe sv r w = (Some e, w\<lparr>tick := tick w + 1\<rparr>)"
  using assms by (simp add: due_try_def methods_of_def send_call_def)

text \<open>The definitions that evaluate an invocation on the example deployment.\<close>

lemmas ex_defs = ex_env_def ex_env_no_email_def ex_services_def ex_email_down_def
  ex_due_query_down_def ex_followup_query_down_def ex_sent_update_down_def
  ex_followup_update_down_def ex_now_def ex_task_def ex_reminder_def
  ex_sms_reminder_def ex_silent_reminder_def ex_followup_reminder_def ex_recent_reminder_def
  ex_done_reminder_def ex_done_world_def
  ex_world_def ex_due_world_def ex_sms_world_def ex_silent_world_def ex_followup_world_def

lemmas run_defs = send_due_def due_scan_def select_due_def followup_scan_def select_followup_def
  store_call_def send_call_def due_item_def due_try_def followup_item_def
  supabase_def resend_def twilioClient_def truthy_def methods_of_def update_where_def
  is_due_def needs_followup_def followUpDelay_def

subsection \<open>First delivery\<close>

text \<open>
  Claim C1. For every reminder the due-scan selects, after the invocation exactly one of
  the following should hold: its \<open>sent\<close> flag is true and its entry is
  \<open>{id, status: sent}\<close>, or a delivery error was thrown, its entry is
  \<open>{id, status: failed, error}\<close> and \<open>sent\<close> is still false. The handler awaits the update
  of \<open>sent\<close> and drops its answer, where every other query of the file throws the error it
  is answered. So on a table that refuses this update, with the services configured and no
  delivery failing, the due reminder \<open>r1\<close> is mailed and reported as \<open>sent\<close>, and its row
  is as before, \<open>sent\<close> still false: neither outcome holds, and the reminder is due
  again.
\<close>

theorem sent_update_refused:
  "supabase ex_env \<and> resend ex_env
 \<and> rows ex_due_world = [ex_reminder] \<and> is_due ex_now ex_reminder \<and> \<not> sent ex_reminder
 \<and> (\<forall>n m. send_fault ex_sent_update_down n m = None)
 \<and> (\<forall>n. store_fault ex_sent_update_down n (SelectDue ex_now) = None)
 \<and> (\<forall>n i. store_fault ex_sent_update_down n (UpdateSent i) = Some ''permission denied'')
 \<and> fst (send_due ex_env ex_sent_update_down ex_now ex_due_world)
     = SendDueOk 1 [\<lparr>entry_id = ''r1'', status = ''sent'', error = None\<rparr>]
 \<and> rows (snd (send_due ex_env ex_sent_update_down ex_now ex_due_world)) = [ex_reminder]
 \<and> outbox (snd (send_due ex_env ex_sent_update_down ex_now ex_due_world))
     = [reminder_email ex_reminder]"
proof -
  have cfg: "supabase ex_env \<and> resend ex_env"
    by (simp add: ex_env_def supabase_def resend_def truthy_def)
  have w: "rows ex_due_world = [ex_reminder]" by (simp add: ex_due_world_def)
  have due: "is_due ex_now ex_reminder \<and> \<not> sent ex_reminder"
    by (simp add: is_due_def ex_reminder_def ex_now_def)
  have sv: "(\<forall>n m. send_fault ex_sent_update_down n m = None)
    \<and> (\<forall>n. store_fault ex_sent_update_down n (SelectDue ex_now) = None)
    \<and> (\<forall>n i. store_fault ex_sent_update_down n (UpdateSent i) = Some ''permission denied'')"
    by (simp add: ex_sent_update_down_def ex_services_def)
  have mail: "reminder_email ex_reminder
      = EmailMsg ''TaskWhisper <noreply@jaypwadhwani.com>'' (Some ''ann@example.org'')
          ''TaskWhisper Reminder - Your Scheduled Tasks''
          (ReminderHtml ''Hi! A reminder.'' [(''Call doctor'', ''Tomorrow at 2pm'', ''urgent'')])"
    by (simp add: reminder_email_def ex_reminder_def ex_task_def or_else_def task_list_def)
  have run: "fst (send_due ex_env ex_sent_update_down ex_now ex_due_world)
       = SendDueOk 1 [\<lparr>entry_id = ''r1'', status = ''sent'', error = None\<rparr>]
     \<and> rows (snd (send_due ex_env ex_sent_update_down ex_now ex_due_world)) = [ex_reminder]
     \<and> outbox (snd (send_due ex_env ex_sent_update_down ex_now ex_due_world))
       = [reminder_email ex_reminder]"
    unfolding mail by (simp add: ex_defs run_defs reminder_email_def or_else_def task_list_def)
  from cfg w due sv run show ?thesis by blast
qed

theorem sent_update_refused_witness:
  "supabase ex_env \<and> resend ex_env
 \<and> fst (send_due ex_env ex_sent_update_down ex_now ex_due_world)
     = SendDueOk 1 [\<lparr>entry_id = ''r1'', status = ''sent'', error = None\<rparr>]
 \<and> map sent (rows (snd (send_due ex_env ex_sent_update_down ex_now ex_due_world))) = [False]"
  using sent_update_refused by simp



text \<open>
  Claim C3, as stated, fails: without a Resend key and with Twilio configured, the route
  answers \<open>Services not configured\<close> before it reads the table, so the due reminder for
  the SMS channel alone is neither sent nor marked.
\<close>

theorem email_unconfigured_counterexample:
  "\<not> resend ex_env_no_email \<and> twilioClient ex_env_no_email
 \<and> notification_methods ex_sms_reminder = Some [''sms'']
 \<and> is_due ex_now ex_sms_reminder
 \<and> rows ex_sms_world = [ex_sms_reminder]
 \<and> send_due ex_env_no_email ex_services ex_now ex_sms_world
     = (SendDueError ''Services not configured'', ex_sms_world)"
  by (simp add: ex_defs run_defs)

text \<open>
  Claim C3, amended. When the email client is not configured, the invocation aborts with
  \<open>Services not configured\<close> and changes nothing, whatever the SMS configuration. When
  the email client is configured but every email send throws, while the SMS client is
  configured and its sends go through (the table answering the due query and carrying out
  the updates of \<open>sent\<close>, ids distinct), then a due reminder whose methods are only
  \<open>sms\<close> and that has a phone number is sent by SMS and marked \<open>sent = true\<close>, and a due
  reminder whose methods are only \<open>email\<close> and that has an address gets a \<open>failed\<close>
  entry with the error, its \<open>sent\<close> flag staying false.
\<close>

theorem email_channel_down:
  "(\<not> resend pe \<longrightarrow> send_due pe sv now w = (SendDueError ''Services not configured'', w))
 \<and> (supabase pe \<and> resend pe \<and> twilioClient pe
    \<and> store_fault sv (tick w) (SelectDue now) = None
    \<and> (\<forall>n i. store_fault sv n (UpdateSent i) = None)
    \<and> (\<forall>n f t s h. send_fault sv n (EmailMsg f t s h) \<noteq> None)
    \<and> (\<forall>n b f t. send_fault sv n (SmsMsg b f t) = None)
    \<and> distinct (map rid (rows w))
    \<and> r \<in> set (rows w) \<and> \<not> sent r \<and> scheduled_for r \<le> now
    \<longrightarrow> (\<exists>results w'.
           send_due pe sv now w = (SendDueOk (length results) results, w')
         \<and> (notification_methods r = Some [''sms''] \<and> truthy (phone_number r)
            \<longrightarrow> map_option sent (get_row (rows w') (rid r)) = Some True
              \<and> \<lparr>entry_id = rid r, status = ''sent'', error = None\<rparr> \<in> set results
              \<and> reminder_sms pe r \<in> set (outbox w'))
         \<and> (notification_methods r = Some [''email''] \<and> truthy (email r)
            \<longrightarrow> map_option sent (get_row (rows w') (rid r)) = Some False
              \<and> (\<exists>e. \<lparr>entry_id = rid r, status = ''failed'', error = Some e\<rparr> \<in> set results))))"
proof (intro conjI impI)
  assume "\<not> resend pe"
  then show "send_due pe sv now w = (SendDueError ''Services not configured'', w)"
    by (simp add: send_due_def)
next
  assume a: "supabase pe \<and> resend pe \<and> twilioClient pe
    \<and> store_fault sv (tick w) (SelectDue now) = None
    \<and> (\<forall>n i. store_fault sv n (UpdateSent i) = None)
    \<and> (\<forall>n f t s h. send_fault sv n (EmailMsg f t s h) \<noteq> None)
    \<and> (\<forall>n b f t. send_fault sv n (SmsMsg b f t) = None)
    \<and> distinct (map rid (rows w))
    \<and> r \<in> set (rows w) \<and> \<not> sent r \<and> scheduled_for r \<le> now"
  then have due: "is_due now r" by (simp add: is_due_def)
  from a have cfg: "supabase pe" "resend pe" "store_fault sv (tick w) (SelectDue now) = None"
    "distinct (map rid (rows w))" "r \<in> set (rows w)" by simp_all
  from send_due_at [OF cfg due] obtain w1 e w2 results w' where
    t: "due_try pe sv r w1 = (e, w2)"
    and row1: "get_row (rows w1) (rid r) = Some r"
    and run: "send_due pe sv now w = (SendDueOk (length results) results, w')"
    and x: "\<lparr>entry_id = rid r, status = (if e = None then ''sent'' else ''failed''), error = e\<rparr>
             \<in> set results"
    and se: "map_option sent (get_row (rows w') (rid r)) = map_option sent (get_row (rows w2) (rid r))"
    and ob: "\<exists>ms. outbox w' = outbox w2 @ ms"
    by blast
  have sms: "map_option sent (get_row (rows w') (rid r)) = Some True
              \<and> \<lparr>entry_id = rid r, status = ''sent'', error = None\<rparr> \<in> set results
              \<and> reminder_sms pe r \<in> set (outbox w')"
    if m: "notification_methods r = Some [''sms''] \<and> truthy (phone_number r)"
  proof -
    have ok: "send_fault sv (tick w1) (reminder_sms pe r) = None"
      using a by (simp add: reminder_sms_def)
    have tw: "twilioClient pe" using a by simp
    let ?w = "w1\<lparr>outbox := outbox w1 @ [reminder_sms pe r], tick := tick w1 + 1\<rparr>"
    have d: "due_try pe sv r w1 = (None, snd (store_call sv (UpdateSent (rid r)) ?w))"
      using due_try_sms_only m tw ok by blast
    with t have e: "e = None" and w2: "w2 = snd (store_call sv (UpdateSent (rid r)) ?w)"
      by simp_all
    have "rows w2 = update_where (rid r) (\<lambda>x. x\<lparr>sent := True\<rparr>) (rows w1)"
      using w2 a by (simp add: store_call_rows)
    then have "map_option sent (get_row (rows w') (rid r)) = Some True"
      using se row1 by (simp add: get_row_update_where)
    moreover have "outbox w2 = outbox w1 @ [reminder_sms pe r]"
      using w2 by (simp add: store_call_outbox)
    then have "reminder_sms pe r \<in> set (outbox w')"
      using ob by auto
    ultimately show ?thesis using x e by simp
  qed
  have mail: "map_option sent (get_row (rows w') (rid r)) = Some False
              \<and> (\<exists>e. \<lparr>entry_id = rid r, status = ''failed'', error = Some e\<rparr> \<in> set results)"
    if m: "notification_methods r = Some [''email''] \<and> truthy (email r)"
  proof -
    have "send_fault sv (tick w1) (reminder_email r) \<noteq> None"
      using a by (simp add: reminder_email_def)
    then obtain err where err: "send_fault sv (tick w1) (reminder_email r) = Some err"
      by blast
    have "due_try pe sv r w1 = (Some err, w1\<lparr>tick := tick w1 + 1\<rparr>)"
      using due_try_email_only m err by blast
    with t have e: "e = Some err" and w2: "w2 = w1\<lparr>tick := tick w1 + 1\<rparr>"
      by simp_all
    have "map_option sent (get_row (rows w') (rid r)) = Some False"
      using se row1 w2 a by simp
    then show ?thesis using x e by auto
  qed
  from run sms mail
  show "\<exists>results w'.
           send_due pe sv now w = (SendDueOk (length results) results, w')
         \<and> (notification_methods r = Some [''sms''] \<and> truthy (phone_number r)
            \<longrightarrow> map_option sent (get_row (rows w') (rid r)) = Some True
              \<and> \<lparr>entry_id = rid r, status = ''sent'', error = None\<rparr> \<in> set results
              \<and> reminder_sms pe r \<in> set (outbox w'))
         \<and> (notification_methods r = Some [''email''] \<and> truthy (email r)
            \<longrightarrow> map_option sent (get_row (rows w') (rid r)) = Some False
              \<and> (\<exists>e. \<lparr>entry_id = rid r, status = ''failed'', error = Some e\<rparr> \<in> set results))"
    by blast
qed

theorem email_channel_down_witness:
  "\<not> resend ex_env_no_email \<and> twilioClient ex_env_no_email
 \<and> send_due ex_env_no_email ex_services ex_now ex_sms_world
     = (SendDueError ''Services not configured'', ex_sms_world)
 \<and> (\<exists>results w'.
       send_due ex_env ex_email_down ex_now ex_world = (SendDueOk (length results) results, w')
     \<and> map_option sent (get_row (rows w') ''r2'') = Some True
     \<and> \<lparr>entry_id = ''r2'', status = ''sent'', error = None\<rparr> \<in> set results
     \<and> reminder_sms ex_env ex_sms_reminder \<in> set (outbox w')
     \<and> map_option sent (get_row (rows w') ''r1'') = Some False
     \<and> (\<exists>e. \<lparr>entry_id = ''r1'', status = ''failed'', error = Some e\<rparr> \<in> set results))"
proof -
  have n1: "\<not> resend ex_env_no_email" by (simp add: ex_defs resend_def truthy_def)
  have n2: "twilioClient ex_env_no_email" by (simp add: ex_defs twilioClient_def truthy_def)
  have a: "send_due ex_env_no_email ex_services ex_now ex_sms_world
     = (SendDueError ''Services not configured'', ex_sms_world)"
    using email_channel_down [of ex_env_no_email ex_services ex_now ex_sms_world] n1 by blast
  have cfg: "supabase ex_env \<and> resend ex_env \<and> twilioClient ex_env"
    by (simp add: ex_defs supabase_def resend_def twilioClient_def truthy_def)
  have sv: "store_fault ex_email_down (tick ex_world) (SelectDue ex_now) = None
    \<and> (\<forall>n i. store_fault ex_email_down n (UpdateSent i) = None)
    \<and> (\<forall>n f t s h. send_fault ex_email_down n (EmailMsg f t s h) \<noteq> None)
    \<and> (\<forall>n b f t. send_fault ex_email_down n (SmsMsg b f t) = None)"
    by (simp add: ex_email_down_def ex_services_def)
  have d: "distinct (map rid (rows ex_world))" by (simp add: ex_defs)
  have r1: "ex_reminder \<in> set (rows ex_world) \<and> \<not> sent ex_reminder
    \<and> scheduled_for ex_reminder \<le> ex_now
    \<and> notification_methods ex_reminder = Some [''email''] \<and> truthy (email ex_reminder)
    \<and> rid ex_reminder = ''r1''"
    by (simp add: ex_defs truthy_def)
  have r2: "ex_sms_reminder \<in> set (rows ex_world) \<and> \<not> sent ex_sms_reminder
    \<and> scheduled_for ex_sms_reminder \<le> ex_now
    \<and> notification_methods ex_sms_reminder = Some [''sms''] \<and> truthy (phone_number ex_sms_reminder)
    \<and> rid ex_sms_reminder = ''r2''"
    by (simp add: ex_defs truthy_def)
  from email_channel_down [of ex_env ex_email_down ex_now ex_world ex_sms_reminder] cfg sv d r2
  obtain results w' where
    run: "send_due ex_env ex_email_down ex_now ex_world = (SendDueOk (length results) results, w')"
    and sms: "map_option sent (get_row (rows w') ''r2'') = Some True
     \<and> \<lparr>entry_id = ''r2'', status = ''sent'', error = None\<rparr> \<in> set results
     \<and> reminder_sms ex_env ex_sms_reminder \<in> set (outbox w')"
    by auto
  from email_channel_down [of ex_env ex_email_down ex_now ex_world ex_reminder] cfg sv d r1 run
  have "map_option sent (get_row (rows w') ''r1'') = Some False
     \<and> (\<exists>e. \<lparr>entry_id = ''r1'', status = ''failed'', error = Some e\<rparr> \<in> set results)"
    by auto
  with n1 n2 a run sms show ?thesis by blast
qed

subsection \<open>Follow-ups\<close>



text \<open>
  Claim C5. For every reminder of the follow-up scan: if the send of its email succeeds,
  \<open>last_followup_sent\<close> should be set to \<open>now\<close> and \<open>followup_count\<close> incremented by 1;
  if the send throws, neither should change and the failure be recorded. The handler
  awaits the update of the two fields and drops its answer, as it does for the update of
  \<open>sent\<close>. So on a table that refuses this update, with no delivery failing, the reminder
  \<open>r3\<close> is mailed and reported as \<open>followup_sent\<close>, and its row is as before:
  \<open>last_followup_sent\<close> still null and the counter still 0, so that it is selected
  again.
\<close>

theorem followup_update_refused:
  "supabase ex_env \<and> resend ex_env
 \<and> rows ex_followup_world = [ex_followup_reminder]
 \<and> needs_followup (ex_now - followUpDelay) ex_followup_reminder
 \<and> last_followup_sent ex_followup_reminder = None
 \<and> followup_count ex_followup_reminder = Some 0
 \<and> (\<forall>n m. send_fault ex_followup_update_down n m = None)
 \<and> (\<forall>n t. store_fault ex_followup_update_down n (SelectDue t) = None)
 \<and> (\<forall>n t. store_fault ex_followup_update_down n (SelectFollowUp t) = None)
 \<and> (\<forall>n i t c. store_fault ex_followup_update_down n (UpdateFollowUp i t c)
       = Some ''permission denied'')
 \<and> fst (send_due ex_env ex_followup_update_down ex_now ex_followup_world)
     = SendDueOk 1 [\<lparr>entry_id = ''r3'', status = ''followup_sent'', error = None\<rparr>]
 \<and> rows (snd (send_due ex_env ex_followup_update_down ex_now ex_followup_world))
     = [ex_followup_reminder]
 \<and> outbox (snd (send_due ex_env ex_followup_update_down ex_now ex_followup_world))
     = [followup_email ex_env ex_followup_reminder]"
proof -
  have cfg: "supabase ex_env \<and> resend ex_env"
    by (simp add: ex_env_def supabase_def resend_def truthy_def)
  have w: "rows ex_followup_world = [ex_followup_reminder]"
    by (simp add: ex_followup_world_def)
  have r: "needs_followup (ex_now - followUpDelay) ex_followup_reminder
    \<and> last_followup_sent ex_followup_reminder = None
    \<and> followup_count ex_followup_reminder = Some 0"
    by (simp add: needs_followup_def followUpDelay_def ex_followup_reminder_def
        ex_reminder_def ex_now_def)
  have sv: "(\<forall>n m. send_fault ex_followup_update_down n m = None)
    \<and> (\<forall>n t. store_fault ex_followup_update_down n (SelectDue t) = None)
    \<and> (\<forall>n t. store_fault ex_followup_update_down n (SelectFollowUp t) = None)
    \<and> (\<forall>n i t c. store_fault ex_followup_update_down n (UpdateFollowUp i t c)
          = Some ''permission denied'')"
    by (simp add: ex_followup_update_down_def ex_services_def)
  have mail: "followup_email ex_env ex_followup_reminder
      = EmailMsg ''TaskWhisper <noreply@jaypwadhwani.com>'' (Some ''ann@example.org'')
          ''Did you complete your task?''
          (FollowUpHtml [''Call doctor'']
            ''https://www.jaypwadhwani.com/complete.html?id=r3''
            ''https://www.jaypwadhwani.com/reschedule.html?id=r3'')"
    by (simp add: followup_email_def Let_def ex_followup_reminder_def ex_reminder_def
        ex_task_def ex_env_def or_else_def task_list_def)
  have run: "fst (send_due ex_env ex_followup_update_down ex_now ex_followup_world)
       = SendDueOk 1 [\<lparr>entry_id = ''r3'', status = ''followup_sent'', error = None\<rparr>]
     \<and> rows (snd (send_due ex_env ex_followup_update_down ex_now ex_followup_world))
       = [ex_followup_reminder]
     \<and> outbox (snd (send_due ex_env ex_followup_update_down ex_now ex_followup_world))
       = [followup_email ex_env ex_followup_reminder]"
    unfolding mail
    by (simp add: ex_defs run_defs followup_email_def Let_def or_else_def task_list_def)
  from cfg w r sv run show ?thesis by blast
qed

theorem followup_update_refused_witness:
  "supabase ex_env \<and> resend ex_env
 \<and> fst (send_due ex_env ex_followup_update_down ex_now ex_followup_world)
     = SendDueOk 1 [\<lparr>entry_id = ''r3'', status = ''followup_sent'', error = None\<rparr>]
 \<and> map last_followup_sent
       (rows (snd (send_due ex_env ex_followup_update_down ex_now ex_followup_world))) = [None]
 \<and> map followup_count
       (rows (snd (send_due ex_env ex_followup_update_down ex_now ex_followup_world))) = [Some 0]"
  using followup_update_refused by simp

subsection \<open>The report and the failures of the table\<close>

text \<open>
  Claim C7, as stated, fails: the entry of a follow-up has status \<open>followup_sent\<close>, which
  is neither \<open>sent\<close> nor \<open>failed\<close>.
\<close>

theorem followup_status_counterexample:
  "fst (send_due ex_env ex_services ex_now ex_followup_world)
     = SendDueOk 1 [\<lparr>entry_id = ''r3'', status = ''followup_sent'', error = None\<rparr>]
 \<and> ''followup_sent'' \<noteq> ''sent'' \<and> ''followup_sent'' \<noteq> ''failed''"
  by (simp add: ex_defs run_defs)

text \<open>
  Claim C7, amended. The report of a successful invocation is \<open>{processed, results}\<close>
  where \<open>results\<close> is the entries of the due-scan, one per due reminder in the order of
  the query's answer, followed by the entries of the follow-up scan, and \<open>processed\<close> is
  the length of \<open>results\<close>. An entry of the due-scan has status \<open>sent\<close> and no error, or
  status \<open>failed\<close> and an error; an entry of the follow-up scan has status
  \<open>followup_sent\<close> and no error, or status \<open>followup_failed\<close> and an error.
\<close>

theorem report_shape:
  assumes "send_due pe sv now w = (SendDueOk processed results, w')"
  shows "\<exists>due_results w1 followup_results.
           due_scan pe sv now w = Inr (due_results, w1)
         \<and> followup_scan pe sv now (due_results, w1) = (due_results @ followup_results, w')
         \<and> results = due_results @ followup_results
         \<and> processed = length results
         \<and> map entry_id due_results = map rid (filter (is_due now) (rows w))
         \<and> (\<forall>x \<in> set due_results.
               (status x = ''sent'' \<and> error x = None) \<or> (status x = ''failed'' \<and> error x \<noteq> None))
         \<and> (\<forall>x \<in> set followup_results.
               (status x = ''followup_sent'' \<and> error x = None)
             \<or> (status x = ''followup_failed'' \<and> error x \<noteq> None))"
proof -
  from assms have cfg: "supabase pe" "resend pe"
    by (auto simp: send_due_def split: if_splits)
  have sel: "store_fault sv (tick w) (SelectDue now) = None"
  proof (cases "store_fault sv (tick w) (SelectDue now)")
    case (Some e)
    then have "send_due pe sv now w = (SendDueError e, w\<lparr>tick := tick w + 1\<rparr>)"
      using cfg by (simp add: send_due_def due_scan_def select_due_def store_call_fault)
    with assms show ?thesis by simp
  qed
  let ?due = "filter (is_due now) (rows w)"
  let ?w0 = "w\<lparr>tick := tick w + 1\<rparr>"
  from due_loop_frame [of pe sv ?due "[]" ?w0] obtain a1 w1 where
    loop: "due_loop pe sv ?due ([], ?w0) = ([] @ a1, w1)"
    and ids: "map entry_id a1 = map rid ?due"
    and st1: "\<forall>x \<in> set a1. (status x = ''sent'' \<and> error x = None) \<or> (status x = ''failed'' \<and> error x \<noteq> None)"
    by blast
  from followup_scan_frame [of pe sv now a1 w1] obtain a4 w4 where
    scan: "followup_scan pe sv now (a1, w1) = (a1 @ a4, w4)"
    and st4: "\<forall>x \<in> set a4. (status x = ''followup_sent'' \<and> error x = None)
                         \<or> (status x = ''followup_failed'' \<and> error x \<noteq> None)"
    by blast
  have "send_due pe sv now w = (SendDueOk (length (a1 @ a4)) (a1 @ a4), w4)"
    using send_due_ok [OF cfg sel] loop scan by simp
  with assms have eq: "processed = length (a1 @ a4) \<and> results = a1 @ a4 \<and> w' = w4"
    by auto
  have "due_scan pe sv now w = Inr (a1, w1)"
    using due_scan_ok [OF sel] loop by simp
  with scan ids st1 st4 eq show ?thesis by blast
qed

theorem report_shape_witness:
  "\<exists>w' due_results w1 followup_results.
      send_due ex_env ex_services ex_now ex_world
        = (SendDueOk 3
             [\<lparr>entry_id = ''r1'', status = ''sent'', error = None\<rparr>,
              \<lparr>entry_id = ''r2'', status = ''sent'', error = None\<rparr>,
              \<lparr>entry_id = ''r3'', status = ''followup_sent'', error = None\<rparr>], w')
    \<and> due_scan ex_env ex_services ex_now ex_world = Inr (due_results, w1)
    \<and> followup_scan ex_env ex_services ex_now (due_results, w1)
        = (due_results @ followup_results, w')
    \<and> [\<lparr>entry_id = ''r1'', status = ''sent'', error = None\<rparr>,
        \<lparr>entry_id = ''r2'', status = ''sent'', error = None\<rparr>,
        \<lparr>entry_id = ''r3'', status = ''followup_sent'', error = None\<rparr>]
        = due_results @ followup_results
    \<and> map entry_id due_results = [''r1'', ''r2'']"
proof -
  let ?results = "[\<lparr>entry_id = ''r1'', status = ''sent'', error = None\<rparr>,
              \<lparr>entry_id = ''r2'', status = ''sent'', error = None\<rparr>,
              \<lparr>entry_id = ''r3'', status = ''followup_sent'', error = None\<rparr>]"
  let ?w = "snd (send_due ex_env ex_services ex_now ex_world)"
  have "fst (send_due ex_env ex_services ex_now ex_world) = SendDueOk 3 ?results"
    by (simp add: ex_defs run_defs)
  then have run: "send_due ex_env ex_services ex_now ex_world = (SendDueOk 3 ?results, ?w)"
    by (metis prod.collapse)
  have due: "map rid (filter (is_due ex_now) (rows ex_world)) = [''r1'', ''r2'']"
    by (simp add: ex_defs is_due_def)
  from report_shape [OF run] due run show ?thesis by auto
qed

text \<open>
  Claim C8, as stated, fails: when the follow-up query is answered with an error, the
  route still reports success, and the reminder sent by the due-scan stays marked.
\<close>

theorem followup_query_failure_counterexample:
  "store_fault ex_followup_query_down 3 (SelectFollowUp (ex_now - followUpDelay))
     = Some ''fetch failed''
 \<and> fst (send_due ex_env ex_followup_query_down ex_now ex_due_world)
     = SendDueOk 1 [\<lparr>entry_id = ''r1'', status = ''sent'', error = None\<rparr>]
 \<and> map sent (rows ex_due_world) = [False]
 \<and> map sent (rows (snd (send_due ex_env ex_followup_query_down ex_now ex_due_world))) = [True]
 \<and> tick (snd (send_due ex_env ex_followup_query_down ex_now ex_due_world)) = 4"
  by (simp add: ex_defs run_defs)

text \<open>
  Claim C8, amended. If the due query fails, the invocation aborts with that error
  reported to the caller; no reminder is processed and neither the table nor the delivered
  messages change. If the follow-up query fails, the error is not reported: the invocation
  answers the report of the due-scan alone, the state is as the due-scan left it, and no
  follow-up is processed.
\<close>

theorem store_failure:
  "(supabase pe \<and> resend pe \<and> store_fault sv (tick w) (SelectDue now) = Some e
    \<longrightarrow> (\<exists>w'. send_due pe sv now w = (SendDueError e, w')
              \<and> rows w' = rows w \<and> outbox w' = outbox w))
 \<and> (supabase pe \<and> resend pe \<and> due_scan pe sv now w = Inr (due_results, w1)
    \<and> store_fault sv (tick w1) (SelectFollowUp (now - followUpDelay)) = Some e
    \<longrightarrow> (\<exists>w'. send_due pe sv now w = (SendDueOk (length due_results) due_results, w')
              \<and> rows w' = rows w1 \<and> outbox w' = outbox w1))"
proof (intro conjI impI)
  assume "supabase pe \<and> resend pe \<and> store_fault sv (tick w) (SelectDue now) = Some e"
  then have "send_due pe sv now w = (SendDueError e, w\<lparr>tick := tick w + 1\<rparr>)"
    by (simp add: send_due_def due_scan_def select_due_def store_call_fault)
  then show "\<exists>w'. send_due pe sv now w = (SendDueError e, w')
              \<and> rows w' = rows w \<and> outbox w' = outbox w"
    by simp
next
  assume a: "supabase pe \<and> resend pe \<and> due_scan pe sv now w = Inr (due_results, w1)
    \<and> store_fault sv (tick w1) (SelectFollowUp (now - followUpDelay)) = Some e"
  then have "followup_scan pe sv now (due_results, w1) = (due_results, w1\<lparr>tick := tick w1 + 1\<rparr>)"
    by (simp add: followup_scan_def select_followup_def store_call_fault)
  with a have "send_due pe sv now w
      = (SendDueOk (length due_results) due_results, w1\<lparr>tick := tick w1 + 1\<rparr>)"
    by (simp add: send_due_def)
  then show "\<exists>w'. send_due pe sv now w = (SendDueOk (length due_results) due_results, w')
              \<and> rows w' = rows w1 \<and> outbox w' = outbox w1"
    by simp
qed

theorem store_failure_witness:
  "(\<exists>w'. send_due ex_env ex_due_query_down ex_now ex_due_world = (SendDueError ''fetch failed'', w')
         \<and> rows w' = rows ex_due_world \<and> outbox w' = outbox ex_due_world)
 \<and> (\<exists>due_results w1 w'.
       due_scan ex_env ex_followup_query_down ex_now ex_due_world = Inr (due_results, w1)
     \<and> send_due ex_env ex_followup_query_down ex_now ex_due_world
         = (SendDueOk (length due_results) due_results, w')
     \<and> rows w' = rows w1 \<and> outbox w' = outbox w1)"
proof -
  have cfg: "supabase ex_env \<and> resend ex_env"
    by (simp add: ex_defs supabase_def resend_def truthy_def)
  have f1: "store_fault ex_due_query_down (tick ex_due_world) (SelectDue ex_now) = Some ''fetch failed''"
    by (simp add: ex_due_query_down_def ex_services_def)
  have a: "\<exists>w'. send_due ex_env ex_due_query_down ex_now ex_due_world = (SendDueError ''fetch failed'', w')
         \<and> rows w' = rows ex_due_world \<and> outbox w' = outbox ex_due_world"
    using store_failure [of ex_env ex_due_query_down ex_due_world ex_now "''fetch failed''"] cfg f1
    by blast
  have ok: "store_fault ex_followup_query_down (tick ex_due_world) (SelectDue ex_now) = None"
    by (simp add: ex_followup_query_down_def ex_services_def)
  obtain due_results w1 where
    scan: "due_scan ex_env ex_followup_query_down ex_now ex_due_world = Inr (due_results, w1)"
    using due_scan_ok [OF ok] by (metis prod.collapse)
  have f2: "store_fault ex_followup_query_down (tick w1) (SelectFollowUp (ex_now - followUpDelay))
      = Some ''fetch failed''"
    by (simp add: ex_followup_query_down_def ex_services_def)
  have b: "\<exists>w'. send_due ex_env ex_followup_query_down ex_now ex_due_world
         = (SendDueOk (length due_results) due_results, w')
     \<and> rows w' = rows w1 \<and> outbox w' = outbox w1"
    using store_failure [of ex_env ex_followup_query_down ex_due_world ex_now "''fetch failed''"
        due_results w1] cfg scan f2
    by blast
  from a b scan show ?thesis by blast
qed

subsection \<open>Rescheduling\<close>

text \<open>
  Claim C4. Rescheduling an existing reminder (database configured, the update carried
  out, ids distinct) answers the row with exactly the fields \<open>scheduled_for\<close>,
  \<open>sent = false\<close>, \<open>last_followup_sent = null\<close> and \<open>followup_count = 0\<close> set, and
  stores it: every other field of the row, in particular \<open>completed\<close>, \<open>tasks\<close>,
  \<open>transcript\<close> and \<open>email_draft\<close>, is as before, for every prior state of the
  reminder; the other rows and the delivered messages are as before.
\<close>

theorem reschedule_frame:
  assumes "supabase pe"
    and "store_fault sv (tick w) (UpdateReschedule i scheduledFor) = None"
    and "distinct (map rid (rows w))"
    and "r \<in> set (rows w)" and "rid r = i"
  shows "\<exists>r' w'. reschedule pe sv not_single i scheduledFor w = (ReminderOk r', w')
           \<and> r' = r\<lparr>scheduled_for := scheduledFor, sent := False,
                     last_followup_sent := None, followup_count := Some 0\<rparr>
           \<and> rows w' = map (\<lambda>x. if rid x = i then r' else x) (rows w)
           \<and> outbox w' = outbox w
           \<and> completed r' = completed r \<and> tasks r' = tasks r
           \<and> transcript r' = transcript r \<and> email_draft r' = email_draft r
           \<and> rid r' = rid r \<and> email r' = email r \<and> phone_number r' = phone_number r
           \<and> notification_methods r' = notification_methods r"
proof -
  let ?g = "\<lambda>x. x\<lparr>scheduled_for := scheduledFor, sent := False,
                   last_followup_sent := None, followup_count := Some 0\<rparr>"
  let ?rows = "update_where i ?g (rows w)"
  have same: "x \<in> set (rows w) \<Longrightarrow> rid x = i \<Longrightarrow> x = r" for x
    using assms(3,4,5) by (metis distinct_map inj_on_def)
  have rows: "?rows = map (\<lambda>x. if rid x = i then ?g r else x) (rows w)"
    unfolding update_where_def by (rule map_cong) (auto dest: same)
  have "filter (\<lambda>x. rid x = i) ?rows = map ?g (filter (\<lambda>x. rid x = i) (rows w))"
    by (induction "rows w") (auto simp: update_where_def filter_map comp_def)
  then have data: "filter (\<lambda>x. rid x = i) ?rows = [?g r]"
    using filter_rid_distinct [OF assms(3,4)] assms(5) by simp
  have "reschedule pe sv not_single i scheduledFor w
          = (ReminderOk (?g r), w\<lparr>rows := ?rows, tick := tick w + 1\<rparr>)"
    using assms(1,2) data by (simp add: reschedule_def store_call_ok)
  then show ?thesis using rows by simp
qed

theorem reschedule_frame_witness:
  "completed ex_done_reminder
 \<and> fst (reschedule ex_env ex_services ''no rows'' ''r6'' 95000000 ex_done_world)
     = ReminderOk (ex_done_reminder\<lparr>scheduled_for := 95000000, sent := False,
                                      last_followup_sent := None, followup_count := Some 0\<rparr>)"
proof -
  have h1: "supabase ex_env" by (simp add: ex_defs supabase_def truthy_def)
  have h2: "store_fault ex_services (tick ex_done_world) (UpdateReschedule ''r6'' 95000000) = None"
    by (simp add: ex_services_def)
  have h3: "distinct (map rid (rows ex_done_world))" by (simp add: ex_defs)
  have h4: "ex_done_reminder \<in> set (rows ex_done_world)" by (simp add: ex_done_world_def)
  have h5: "rid ex_done_reminder = ''r6''" by (simp add: ex_defs)
  have h6: "completed ex_done_reminder" by (simp add: ex_defs)
  from reschedule_frame [OF h1 h2 h3 h4 h5, of "''no rows''"] h6 show ?thesis by auto
qed

subsection \<open>Phone normalisation\<close>

lemma is_digit_plus: "\<not> is_digit CHR ''+''"
  by (simp add: is_digit_def)

lemma is_digit_one: "is_digit CHR ''1''"
  by (simp add: is_digit_def)

lemma normalize_spec_nonempty: "normalize_spec p \<noteq> []"
  by (simp add: normalize_spec_def Let_def)

lemma digits_normalize_spec:
  "filter is_digit (normalize_spec p) =
     (if startsWith (filter is_digit p) ''1'' then filter is_digit p
      else ''1'' @ filter is_digit p)"
  by (simp add: normalize_spec_def Let_def is_digit_plus is_digit_one)

lemma startsWith_digits_normalize_spec:
  "startsWith (filter is_digit (normalize_spec p)) ''1''"
  by (simp add: digits_normalize_spec) (simp add: startsWith_def)

lemma normalize_spec_idem: "normalize_spec (normalize_spec p) = normalize_spec p"
proof -
  have "normalize_spec (normalize_spec p) = ''+'' @ filter is_digit (normalize_spec p)"
    using startsWith_digits_normalize_spec [of p]
    by (simp add: normalize_spec_def [of "normalize_spec p"] Let_def)
  also have "\<dots> = normalize_spec p"
    by (simp only: digits_normalize_spec) (simp add: normalize_spec_def Let_def)
  finally show ?thesis .
qed

lemma formatPhone_Some: "p \<noteq> [] \<Longrightarrow> formatPhone (Some p) = normalize_spec p"
  by (simp add: formatPhone_def normalize_spec_def Let_def)

text \<open>
  The guard of \<open>formatPhone\<close> answers the empty string for a missing or empty argument.
  Its only call, in the SMS branch of the due loop, is under
  \<^verbatim>\<open>reminder.phone_number &&\<close>: the argument is a non-empty string there.
\<close>

lemma formatPhone_falsy: "\<not> truthy phone \<Longrightarrow> formatPhone phone = []"
  by (cases phone) (simp_all add: formatPhone_def truthy_def)

text \<open>
  Claim C6. For every string \<open>p\<close> that reaches it, \<open>formatPhone\<close> returns a plus followed
  by the digits of \<open>p\<close>, all other characters stripped, with the digit 1 prepended when
  the digits do not begin with 1. So \<open>555-123-4567\<close> and \<open>15551234567\<close> both map to
  \<open>+15551234567\<close>, which maps to itself, and the normalisation is idempotent.
\<close>

theorem formatPhone_normalizes:
  assumes "truthy (Some p)"
  shows "formatPhone (Some p) = normalize_spec p
       \<and> formatPhone (Some ''555-123-4567'') = ''+15551234567''
       \<and> formatPhone (Some ''15551234567'') = ''+15551234567''
       \<and> formatPhone (Some ''+15551234567'') = ''+15551234567''
       \<and> formatPhone (Some (formatPhone (Some p))) = formatPhone (Some p)"
proof (intro conjI)
  from assms have p: "p \<noteq> []" by (simp add: truthy_def)
  then show "formatPhone (Some p) = normalize_spec p"
    by (rule formatPhone_Some)
  show "formatPhone (Some ''555-123-4567'') = ''+15551234567''"
    by (simp add: formatPhone_def is_digit_def startsWith_def)
  show "formatPhone (Some ''15551234567'') = ''+15551234567''"
    by (simp add: formatPhone_def is_digit_def startsWith_def)
  show "formatPhone (Some ''+15551234567'') = ''+15551234567''"
    by (simp add: formatPhone_def is_digit_def startsWith_def)
  from p show "formatPhone (Some (formatPhone (Some p))) = formatPhone (Some p)"
    by (simp add: formatPhone_Some normalize_spec_nonempty normalize_spec_idem)
qed

theorem formatPhone_normalizes_witness:
  "truthy (Some ''(555) 123-4567'')
 \<and> formatPhone (Some ''(555) 123-4567'') = ''+15551234567''
 \<and> formatPhone (Some (formatPhone (Some ''(555) 123-4567''))) = ''+15551234567''"
proof -
  have h: "truthy (Some ''(555) 123-4567'')" by (simp add: truthy_def)
  have n: "normalize_spec ''(555) 123-4567'' = ''+15551234567''"
    by (simp add: normalize_spec_def Let_def is_digit_def startsWith_def)
  from formatPhone_normalizes [OF h] h n show ?thesis by simp
qed

subsection \<open>Transcription\<close>

text \<open>
  Claim C10. On an upload whose temporary file exists, the transcription route takes its
  mock branch (it answers the fixed placeholder transcript with \<open>mock = true\<close> and
  deletes the temporary file) if and only if \<^verbatim>\<open>OPENAI_API_KEY\<close> is unset, empty or the
  placeholder \<^verbatim>\<open>your-openai-api-key-here\<close>; no other key gives an answer with
  \<open>mock = true\<close>. With the placeholder as key, the health route nevertheless reports
  \<open>whisperAvailable = true\<close>.
\<close>

theorem transcribe_mock_branch:
  assumes "path \<in> fs"
  shows "(transcribe pe sv (Some path) fs = (Transcribed mockTranscript True, fs - {path})
          \<longleftrightarrow> OPENAI_API_KEY pe = None \<or> OPENAI_API_KEY pe = Some []
              \<or> OPENAI_API_KEY pe = Some ''your-openai-api-key-here'')
       \<and> ((\<exists>t. fst (transcribe pe sv (Some path) fs) = Transcribed t True)
          \<longleftrightarrow> OPENAI_API_KEY pe = None \<or> OPENAI_API_KEY pe = Some []
              \<or> OPENAI_API_KEY pe = Some ''your-openai-api-key-here'')
       \<and> (OPENAI_API_KEY pe = Some ''your-openai-api-key-here''
          \<longrightarrow> whisperAvailable (health pe now))"
proof -
  let ?mock = "OPENAI_API_KEY pe = None \<or> OPENAI_API_KEY pe = Some []
              \<or> OPENAI_API_KEY pe = Some ''your-openai-api-key-here''"
  have guard: "(\<not> truthy (OPENAI_API_KEY pe) \<or> OPENAI_API_KEY pe = Some ''your-openai-api-key-here'') = ?mock"
    by (cases "OPENAI_API_KEY pe") (auto simp: truthy_def)
  have yes: "transcribe pe sv (Some path) fs = (Transcribed mockTranscript True, fs - {path})" if ?mock
    using that assms guard by (simp add: transcribe_def unlinkSync_def)
  have no: "\<forall>t. fst (transcribe pe sv (Some path) fs) \<noteq> Transcribed t True" if "\<not> ?mock"
    using that guard
    by (auto simp: transcribe_def Let_def transcribe_catch_def split: sum.splits)
  have h: "OPENAI_API_KEY pe = Some ''your-openai-api-key-here'' \<longrightarrow> whisperAvailable (health pe now)"
    by (simp add: health_def truthy_def)
  from yes no h show ?thesis
    by (metis fst_conv)
qed

theorem transcribe_mock_branch_witness:
  "transcribe ex_env ex_services (Some ''uploads/3f9a'') {''uploads/3f9a''}
     = (Transcribed mockTranscript True, {})
 \<and> whisperAvailable (health ex_env ex_now)"
proof -
  have h: "''uploads/3f9a'' \<in> {''uploads/3f9a''}" by simp
  have k: "OPENAI_API_KEY ex_env = Some ''your-openai-api-key-here''"
    by (simp add: ex_env_def)
  from transcribe_mock_branch [OF h, of ex_env ex_services ex_now] k show ?thesis
    by simp
qed

end
